theory Spec2Isabelle
  imports Main "HOL-Library.AList" "HOL-Library.Multiset"
begin

section \<open>Errors and results\<close>

text \<open>
  Every Python exception the modelled code can meet is a value.  An operation on a state
  of type \<open>'s\<close> returns \<open>(error + 'a) \<times> 's\<close>: the state is returned also when the operation
  raises, because the side effects performed before the exception stay on disk.
\<close>

datatype error =
    FileNotFoundError
  | FileExistsError
  | KeyError string
  | ValueError string
  | TypeError
  | JSONDecodeError
  | AttributeError
  | OSError
  | Raised string

type_synonym ('a, 'b, 's) callable = "'a \<Rightarrow> 's \<Rightarrow> (error + 'b) \<times> 's"

section \<open>processing.py: the parallel map\<close>

text \<open>
  \<^verbatim>\<open>process_map(f, args, packed)\<close> hands the tasks to a \<^verbatim>\<open>multiprocessing.Pool\<close>.  The
  pool runs the tasks in an order the program does not control and stores every result
  under the index of its input.  The order is a parameter of the model: \<open>finish i\<close> is
  the completion time of task \<open>i\<close>, the tasks take effect in the order of their completion
  times, and the first task that raises ends the map with its exception.

  The pool sends every task to a worker process as a pickle, the function included.  A
  function is pickled by its qualified name, which only a function defined at the top
  level of a module has: for a lambda and for a function nested in another function
  pickling raises \<^verbatim>\<open>AttributeError\<close>, the map raises it in the caller and no task runs.
  For an empty list nothing is sent and the map returns the empty list.
\<close>

datatype ('a, 'b, 's) pyfunc =
    Toplevel "('a, 'b, 's) callable"
  | Nested "('a, 'b, 's) callable"

definition picklable :: "('a, 'b, 's) pyfunc \<Rightarrow> bool" where
  "picklable f = (case f of Toplevel _ \<Rightarrow> True | Nested _ \<Rightarrow> False)"

definition call_of :: "('a, 'b, 's) pyfunc \<Rightarrow> ('a, 'b, 's) callable" where
  "call_of f = (case f of Toplevel c \<Rightarrow> c | Nested c \<Rightarrow> c)"

definition POOL_SIZE :: nat where
  "POOL_SIZE = 4"

definition completion_order :: "(nat \<Rightarrow> nat) \<Rightarrow> nat \<Rightarrow> nat list" where
  "completion_order finish n = sort_key finish [0..<n]"

fun run_tasks :: "nat list \<Rightarrow> (nat \<Rightarrow> 's \<Rightarrow> (error + 'b) \<times> 's) \<Rightarrow> 's
    \<Rightarrow> (error + (nat \<times> 'b) list) \<times> 's" where
  "run_tasks [] task s = (Inr [], s)"
| "run_tasks (i # sched) task s =
     (case task i s of
        (Inl e, s') \<Rightarrow> (Inl e, s')
      | (Inr y, s') \<Rightarrow>
          (case run_tasks sched task s' of
             (Inl e, s'') \<Rightarrow> (Inl e, s'')
           | (Inr slots, s'') \<Rightarrow> (Inr ((i, y) # slots), s'')))"

text \<open>The results are read back in the order of the task indices.\<close>

definition gather :: "(nat \<times> 'b) list \<Rightarrow> 'b list" where
  "gather slots = map snd (sort_key fst slots)"

text \<open>
  \<^verbatim>\<open>p.map\<close> calls \<^verbatim>\<open>f(x)\<close>, \<^verbatim>\<open>p.starmap\<close> calls \<^verbatim>\<open>f(*t)\<close>.  A callable is modelled as a
  function of its positional arguments taken together, so unpacking the tuple \<open>t\<close> is the
  application of \<open>f\<close> to \<open>t\<close>.
\<close>

definition mapstar :: "('a, 'b, 's) callable \<Rightarrow> ('a, 'b, 's) callable" where
  "mapstar f x = f x"

definition starmapstar :: "('a, 'b, 's) callable \<Rightarrow> ('a, 'b, 's) callable" where
  "starmapstar f t = f t"

definition map_async :: "(nat \<Rightarrow> nat) \<Rightarrow> (('a, 'b, 's) callable \<Rightarrow> ('a, 'b, 's) callable)
    \<Rightarrow> ('a, 'b, 's) pyfunc \<Rightarrow> 'a list \<Rightarrow> 's \<Rightarrow> (error + 'b list) \<times> 's" where
  "map_async finish mapper f args s =
     (if args = [] then (Inr [], s)
      else if \<not> picklable f then (Inl AttributeError, s)
      else (case run_tasks (completion_order finish (length args))
                   (\<lambda>i. mapper (call_of f) (args ! i)) s of
              (Inl e, s') \<Rightarrow> (Inl e, s')
            | (Inr slots, s') \<Rightarrow> (Inr (gather slots), s')))"

definition process_map :: "(nat \<Rightarrow> nat) \<Rightarrow> ('a, 'b, 's) pyfunc \<Rightarrow> 'a list \<Rightarrow> bool \<Rightarrow> 's
    \<Rightarrow> (error + 'b list) \<times> 's" where
  "process_map finish f args packed s =
     (if packed then map_async finish starmapstar f args s
      else map_async finish mapstar f args s)"

text \<open>
  The single-threaded reference: \<^verbatim>\<open>[f(x) for x in xs]\<close>, which raises at the first input
  whose call raises.  A function without side effects is lifted to a callable by
  \<open>pure_call\<close>; \<open>sequential_run\<close> is the same loop for a callable with side effects.
\<close>

fun sequential_map :: "('a \<Rightarrow> error + 'b) \<Rightarrow> 'a list \<Rightarrow> error + 'b list" where
  "sequential_map g [] = Inr []"
| "sequential_map g (x # xs) =
     (case g x of
        Inl e \<Rightarrow> Inl e
      | Inr y \<Rightarrow> (case sequential_map g xs of Inl e \<Rightarrow> Inl e | Inr ys \<Rightarrow> Inr (y # ys)))"

definition pure_call :: "('a \<Rightarrow> error + 'b) \<Rightarrow> ('a, 'b, 's) callable" where
  "pure_call g x s = (g x, s)"


section \<open>The file system\<close>

text \<open>
  The state of the pipeline is the part of the disk under the working directory: the
  directories, and the files by kind (images, CSV ledgers, JSON metadata, numpy arrays),
  each kind an association list from path to content.  An image of type \<open>'i\<close> stands for
  the file and for its decoded pixel array alike.
\<close>

type_synonym path = string

datatype cell = CBool bool | CStr string

type_synonym row = "(string \<times> cell) list"

text \<open>
  A CSV file as pandas writes it: the header of the index column (empty when
  \<^verbatim>\<open>to_csv\<close> is called without \<^verbatim>\<open>index_label\<close>), the data columns and the rows.
\<close>

record table =
  index_label :: string
  columns :: "string list"
  rows :: "row list"

datatype json = JNull | JBool bool | JStr string | JList "json list" | JObj "(string \<times> json) list"

datatype 'i npy = ImageArray "'i list" | LabelArray "int list"

text \<open>
  A JSON file holds the documents written into it one after the other; \<^verbatim>\<open>json.load\<close>
  accepts a file that holds exactly one.
\<close>

record 'i world =
  dirs :: "path list"
  image_files :: "(path \<times> 'i) list"
  csv_files :: "(path \<times> table) list"
  json_files :: "(path \<times> json list) list"
  npy_files :: "(path \<times> 'i npy) list"

definition basename :: "path \<Rightarrow> string" where
  "basename p = rev (takeWhile (\<lambda>c. c \<noteq> CHR ''/'') (rev p))"

definition dirname :: "path \<Rightarrow> path" where
  "dirname p = rev (drop 1 (dropWhile (\<lambda>c. c \<noteq> CHR ''/'') (rev p)))"

definition all_paths :: "'i world \<Rightarrow> path list" where
  "all_paths w = dirs w @ map fst (image_files w) @ map fst (csv_files w)
     @ map fst (json_files w) @ map fst (npy_files w)"

definition path_exists :: "'i world \<Rightarrow> path \<Rightarrow> bool" where
  "path_exists w p = (p \<in> set (all_paths w))"

text \<open>The working directory, the empty path, always exists.\<close>

definition isdir :: "'i world \<Rightarrow> path \<Rightarrow> bool" where
  "isdir w p = (p = [] \<or> p \<in> set (dirs w))"

definition listdir :: "path \<Rightarrow> 'i world \<Rightarrow> error + string list" where
  "listdir d w =
     (if isdir w d then Inr (map basename (filter (\<lambda>p. dirname p = d) (all_paths w)))
      else Inl FileNotFoundError)"

definition mkdir :: "path \<Rightarrow> 'i world \<Rightarrow> (error + unit) \<times> 'i world" where
  "mkdir p w =
     (if path_exists w p then (Inl FileExistsError, w)
      else if \<not> isdir w (dirname p) then (Inl FileNotFoundError, w)
      else (Inr (), w\<lparr>dirs := dirs w @ [p]\<rparr>))"

text \<open>Opening a file for writing fails on a directory and in a directory that is missing.\<close>

definition open_write :: "path \<Rightarrow> 'i world \<Rightarrow> error option" where
  "open_write p w =
     (if p \<in> set (dirs w) then Some OSError
      else if \<not> isdir w (dirname p) then Some FileNotFoundError
      else None)"



subsection \<open>CSV, JSON and array files\<close>

definition to_csv :: "path \<Rightarrow> string \<Rightarrow> string list \<Rightarrow> row list \<Rightarrow> 'i world
    \<Rightarrow> (error + unit) \<times> 'i world" where
  "to_csv p label cols rws w =
     (case open_write p w of
        Some e \<Rightarrow> (Inl (if e = FileNotFoundError then OSError else e), w)
      | None \<Rightarrow> (Inr (), w\<lparr>csv_files :=
          AList.update p \<lparr>index_label = label, columns = cols, rows = rws\<rparr> (csv_files w)\<rparr>))"

definition read_csv :: "path \<Rightarrow> 'i world \<Rightarrow> error + table" where
  "read_csv p w = (case map_of (csv_files w) p of None \<Rightarrow> Inl FileNotFoundError | Some t \<Rightarrow> Inr t)"

text \<open>
  \<^verbatim>\<open>pd.read_csv(p, index_col=name)\<close> raises a ValueError when no column of the file is
  headed \<open>name\<close>.  A data column so named becomes the index and leaves the columns.
\<close>

definition read_csv_index_col :: "path \<Rightarrow> string \<Rightarrow> 'i world \<Rightarrow> error + table" where
  "read_csv_index_col p name w =
     (case map_of (csv_files w) p of
        None \<Rightarrow> Inl FileNotFoundError
      | Some t \<Rightarrow>
          if index_label t = name then Inr t
          else if name \<in> set (columns t)
          then Inr (t\<lparr>index_label := name, columns := removeAll name (columns t),
                      rows := map (AList.delete name) (rows t)\<rparr>)
          else Inl (ValueError (''Index '' @ name @ '' invalid'')))"

definition row_get :: "row \<Rightarrow> string \<Rightarrow> error + cell" where
  "row_get r c = (case map_of r c of None \<Rightarrow> Inl (KeyError c) | Some v \<Rightarrow> Inr v)"

definition get_column :: "table \<Rightarrow> string \<Rightarrow> error + cell list" where
  "get_column t c =
     (if c \<in> set (columns t) then sequential_map (\<lambda>r. row_get r c) (rows t)
      else Inl (KeyError c))"

definition truthy :: "cell \<Rightarrow> bool" where
  "truthy v = (case v of CBool b \<Rightarrow> b | CStr s \<Rightarrow> s \<noteq> [])"

definition json_load :: "path \<Rightarrow> 'i world \<Rightarrow> error + json" where
  "json_load p w =
     (case map_of (json_files w) p of
        None \<Rightarrow> Inl FileNotFoundError
      | Some [d] \<Rightarrow> Inr d
      | Some _ \<Rightarrow> Inl JSONDecodeError)"

text \<open>\<^verbatim>\<open>data[k] = v\<close> on the loaded document, which must be a dictionary.\<close>

definition json_set :: "string \<Rightarrow> json \<Rightarrow> json \<Rightarrow> error + json" where
  "json_set k v data =
     (case data of JObj kvs \<Rightarrow> Inr (JObj (AList.update k v kvs)) | _ \<Rightarrow> Inl TypeError)"

text \<open>
  \<^verbatim>\<open>open(p, "w+")\<close> truncates the file, so the dumped document is all it holds.
  After \<^verbatim>\<open>open(p, "r+")\<close> and \<^verbatim>\<open>json.load\<close> the position is the end of the file, and
  \<^verbatim>\<open>json.dump\<close> writes the document behind what the file holds.
\<close>

definition json_dump_truncate :: "path \<Rightarrow> json \<Rightarrow> 'i world \<Rightarrow> (error + unit) \<times> 'i world" where
  "json_dump_truncate p d w =
     (case open_write p w of
        Some e \<Rightarrow> (Inl e, w)
      | None \<Rightarrow> (Inr (), w\<lparr>json_files := AList.update p [d] (json_files w)\<rparr>))"

definition json_dump_at_end :: "path \<Rightarrow> json \<Rightarrow> 'i world \<Rightarrow> (error + unit) \<times> 'i world" where
  "json_dump_at_end p d w =
     (case map_of (json_files w) p of
        None \<Rightarrow> (Inl FileNotFoundError, w)
      | Some ds \<Rightarrow> (Inr (), w\<lparr>json_files := AList.update p (ds @ [d]) (json_files w)\<rparr>))"

definition np_save :: "path \<Rightarrow> 'i npy \<Rightarrow> 'i world \<Rightarrow> (error + unit) \<times> 'i world" where
  "np_save p a w =
     (case open_write p w of
        Some e \<Rightarrow> (Inl e, w)
      | None \<Rightarrow> (Inr (), w\<lparr>npy_files := AList.update p a (npy_files w)\<rparr>))"

definition copyfile :: "path \<Rightarrow> path \<Rightarrow> 'i world \<Rightarrow> (error + unit) \<times> 'i world" where
  "copyfile src dst w =
     (case map_of (image_files w) src of
        None \<Rightarrow> (Inl FileNotFoundError, w)
      | Some img \<Rightarrow>
          if src = dst then (Inl (Raised ''SameFileError''), w)
          else (case open_write dst w of
                  Some e \<Rightarrow> (Inl e, w)
                | None \<Rightarrow> (Inr (), w\<lparr>image_files := AList.update dst img (image_files w)\<rparr>)))"

subsection \<open>Dataset names\<close>

text \<open>\<^verbatim>\<open>f"dataset-{i}"\<close>: the decimal digits of \<open>i\<close>.\<close>

definition digit_char :: "nat \<Rightarrow> char" where
  "digit_char d = ''0123456789'' ! d"

function str_nat :: "nat \<Rightarrow> string" where
  "str_nat n = (if n < 10 then [digit_char n] else str_nat (n div 10) @ [digit_char (n mod 10)])"
  by pat_completeness auto
termination
  by (relation "measure id") auto

declare str_nat.simps [simp del]

definition dataset_name :: "nat \<Rightarrow> string" where
  "dataset_name i = ''dataset-'' @ str_nat i"

definition digit_val :: "char \<Rightarrow> nat" where
  "digit_val c = of_char c - 48"

definition nat_of_str :: "string \<Rightarrow> nat" where
  "nat_of_str s = foldl (\<lambda>a c. 10 * a + digit_val c) 0 s"

lemma digit_val_digit_char: "d < 10 \<Longrightarrow> digit_val (digit_char d) = d"
proof -
  assume "d < 10"
  then have "d = 0 \<or> d = 1 \<or> d = 2 \<or> d = 3 \<or> d = 4 \<or> d = 5 \<or> d = 6 \<or> d = 7 \<or> d = 8 \<or> d = 9"
    by arith
  then show ?thesis
    by (elim disjE) (simp_all add: digit_val_def digit_char_def)
qed

lemma nat_of_str_str_nat: "nat_of_str (str_nat n) = n"
proof (induction n rule: str_nat.induct)
  case (1 n)
  show ?case
  proof (cases "n < 10")
    case True
    then show ?thesis
      by (subst str_nat.simps) (simp add: nat_of_str_def digit_val_digit_char)
  next
    case False
    with 1 have "nat_of_str (str_nat (n div 10)) = n div 10" by simp
    with False show ?thesis
      by (subst str_nat.simps) (simp add: nat_of_str_def digit_val_digit_char)
  qed
qed

lemma inj_str_nat: "inj str_nat"
  by (rule inj_on_inverseI [where g = nat_of_str]) (rule nat_of_str_str_nat)

lemma inj_dataset_name: "inj dataset_name"
  using inj_str_nat by (auto simp: inj_def dataset_name_def)

text \<open>
  \<^verbatim>\<open>next(i for i in itertools.count() if f"dataset-{i}" not in datasets)\<close>: the search
  from \<open>i\<close> upwards.  It ends because the listing is finite and no two numbers have the
  same name.
\<close>

function first_free :: "string list \<Rightarrow> nat \<Rightarrow> nat" where
  "first_free datasets i =
     (if dataset_name i \<in> set datasets then first_free datasets (Suc i) else i)"
  by pat_completeness auto
termination
proof (relation "measure (\<lambda>(datasets, i). card {j. i \<le> j \<and> dataset_name j \<in> set datasets})")
  show "wf (measure (\<lambda>(datasets, i). card {j. i \<le> j \<and> dataset_name j \<in> set datasets}))"
    by simp
next
  fix datasets :: "string list" and i :: nat
  assume used: "dataset_name i \<in> set datasets"
  let ?A = "{j. Suc i \<le> j \<and> dataset_name j \<in> set datasets}"
  let ?B = "{j. i \<le> j \<and> dataset_name j \<in> set datasets}"
  have "finite (dataset_name -` set datasets)"
    by (rule finite_vimageI) (simp_all add: inj_dataset_name)
  then have finite: "finite ?B"
    by (rule rev_finite_subset) auto
  have inB: "i \<in> ?B" using used by simp
  have notinA: "i \<notin> ?A" by simp
  have sub: "?A \<subseteq> ?B" by auto
  from inB notinA have "?A \<noteq> ?B" by blast
  with sub have "?A \<subset> ?B" by blast
  with finite show "((datasets, Suc i), (datasets, i))
      \<in> measure (\<lambda>(datasets, i). card {j. i \<le> j \<and> dataset_name j \<in> set datasets})"
    by (simp add: psubset_card_mono)
qed

declare first_free.simps [simp del]

section \<open>The registries\<close>

text \<open>
  The modules \<^verbatim>\<open>conversions\<close>, \<^verbatim>\<open>transforms\<close> and \<^verbatim>\<open>store\<close> are parameters.  A conversion
  takes the path of an image and works on the image files: it may write, rename and
  remove images, and returns the new path or raises.  A transform maps a pixel array
  to a pixel array or raises; the transforms are taken to be functions defined at the top
  level of their module, as \<^verbatim>\<open>_load_image_array\<close> is.  \<open>finish_time\<close> is the completion
  time the pool gives to the task with the given index.
\<close>

type_synonym 'i conversion =
  "path \<Rightarrow> (path \<times> 'i) list \<Rightarrow> (error + path) \<times> (path \<times> 'i) list"

record 'i env =
  CONVERSIONS :: "(string \<times> 'i conversion) list"
  TRANSFORMS :: "(string \<times> ('i \<Rightarrow> error + 'i)) list"
  CLASSES :: "(cell \<times> int) list"
  DEFAULT_CLASS :: cell
  finish_time :: "nat \<Rightarrow> nat"

section \<open>storage.py\<close>

text \<open>
  \<^verbatim>\<open>init_data_store\<close>: the three \<^verbatim>\<open>os.mkdir\<close> calls stand in one \<^verbatim>\<open>try\<close> block whose handler
  passes on \<^verbatim>\<open>FileExistsError\<close>, so the first directory that exists ends the block.
\<close>

definition pass_file_exists :: "(error + unit) \<times> 'i world \<Rightarrow> (error + unit) \<times> 'i world" where
  "pass_file_exists r =
     (case r of
        (Inl e, w) \<Rightarrow> if e = FileExistsError then (Inr (), w) else (Inl e, w)
      | (Inr u, w) \<Rightarrow> (Inr u, w))"

definition init_data_store :: "'i world \<Rightarrow> (error + unit) \<times> 'i world" where
  "init_data_store w =
     pass_file_exists
       (case mkdir ''data'' w of
          (Inl e, w1) \<Rightarrow> (Inl e, w1)
        | (Inr _, w1) \<Rightarrow>
            (case mkdir ''data/images'' w1 of
               (Inl e, w2) \<Rightarrow> (Inl e, w2)
             | (Inr _, w2) \<Rightarrow> mkdir ''data/datasets'' w2))"

definition init_label_store :: "'i env \<Rightarrow> 'i world \<Rightarrow> (error + unit) \<times> 'i world" where
  "init_label_store env w =
     to_csv ''data/log.csv'' [] ([''File'', ''Class''] @ map fst (CONVERSIONS env)) [] w"

definition storage_new_dataset :: "'i world \<Rightarrow> (error + path) \<times> 'i world" where
  "storage_new_dataset w =
     (case listdir ''data/datasets'' w of
        Inl e \<Rightarrow> (Inl e, w)
      | Inr datasets \<Rightarrow>
          let i = first_free datasets 0;
              path = ''data/datasets/'' @ dataset_name i
          in (case mkdir path w of
                (Inl e, w1) \<Rightarrow> (Inl e, w1)
              | (Inr _, w1) \<Rightarrow>
          (case mkdir (path @ ''/images'') w1 of
                (Inl e, w2) \<Rightarrow> (Inl e, w2)
              | (Inr _, w2) \<Rightarrow>
          (case to_csv (path @ ''/log.csv'') [] [''File'', ''Class''] [] w2 of
                (Inl e, w3) \<Rightarrow> (Inl e, w3)
              | (Inr _, w3) \<Rightarrow>
          (case json_dump_truncate (path @ ''/process.json'')
                  (JObj [(''Conversions'', JList []), (''Transforms'', JList [])]) w3 of
                (Inl e, w4) \<Rightarrow> (Inl e, w4)
              | (Inr _, w4) \<Rightarrow> (Inr path, w4))))))"


section \<open>dataset.py: construction\<close>

text \<open>\<^verbatim>\<open>[c for c in conversions if not r[c]]\<close>, where \<^verbatim>\<open>r[c]\<close> raises on a missing column.\<close>

fun unflagged_conversions :: "row \<Rightarrow> string list \<Rightarrow> error + string list" where
  "unflagged_conversions r [] = Inr []"
| "unflagged_conversions r (c # cs) =
     (case row_get r c of
        Inl e \<Rightarrow> Inl e
      | Inr v \<Rightarrow>
          (case unflagged_conversions r cs of
             Inl e \<Rightarrow> Inl e
           | Inr rest \<Rightarrow> Inr (if \<not> truthy v then c # rest else rest)))"

definition cell_in :: "cell \<Rightarrow> string list \<Rightarrow> bool" where
  "cell_in v filenames = (case v of CStr s \<Rightarrow> s \<in> set filenames | CBool _ \<Rightarrow> False)"

text \<open>
  The list \<^verbatim>\<open>conversions_left\<close> of lines 40 to 49: with \<^verbatim>\<open>from_store\<close> the rows of the store
  ledger whose file is requested, each with the conversions its flags leave; without,
  one row per file name with all the conversions.
\<close>

definition conversions_left :: "'i env \<Rightarrow> string list \<Rightarrow> string list \<Rightarrow> bool \<Rightarrow> 'i world
    \<Rightarrow> error + (row \<times> string list) list" where
  "conversions_left env filenames conversions from_store w =
     (if from_store then
        (case read_csv_index_col ''data/log.csv'' ''Index'' w of
           Inl e \<Rightarrow> Inl e
         | Inr df_store \<Rightarrow>
             (case get_column df_store ''File'' of
                Inl e \<Rightarrow> Inl e
              | Inr files \<Rightarrow>
                  let df = map snd (filter (\<lambda>(f, r). cell_in f filenames)
                                           (zip files (rows df_store)))
                  in sequential_map
                       (\<lambda>r. case unflagged_conversions r conversions of
                               Inl e \<Rightarrow> Inl e
                             | Inr cs \<Rightarrow> Inr (r, cs)) df))
      else Inr (map (\<lambda>f. ([(''File'', CStr f), (''Class'', DEFAULT_CLASS env)], conversions))
                    filenames))"

text \<open>\<^verbatim>\<open>img = CONVERSIONS[c](img)\<close>\<close>

definition call_conversion :: "'i env \<Rightarrow> string \<Rightarrow> path \<Rightarrow> 'i world
    \<Rightarrow> (error + path) \<times> 'i world" where
  "call_conversion env c img w =
     (case map_of (CONVERSIONS env) c of
        None \<Rightarrow> (Inl (KeyError c), w)
      | Some conv \<Rightarrow>
          (case conv img (image_files w) of
             (r, imgs) \<Rightarrow> (r, w\<lparr>image_files := imgs\<rparr>)))"

fun apply_conversions :: "'i env \<Rightarrow> string list \<Rightarrow> path \<Rightarrow> 'i world
    \<Rightarrow> (error + path) \<times> 'i world" where
  "apply_conversions env [] img w = (Inr img, w)"
| "apply_conversions env (c # cs) img w =
     (case call_conversion env c img w of
        (Inl e, w') \<Rightarrow> (Inl e, w')
      | (Inr img', w') \<Rightarrow> apply_conversions env cs img' w')"

text \<open>
  \<^verbatim>\<open>_copy_and_apply\<close> is defined inside \<^verbatim>\<open>new_dataset\<close> (it reads the variable \<^verbatim>\<open>dataset\<close> of
  the call), so \<open>new_dataset\<close> hands it to the pool as a nested function.
\<close>

definition copy_and_apply :: "'i env \<Rightarrow> path \<Rightarrow> (cell \<times> string list, path, 'i world) callable" where
  "copy_and_apply env dataset task w =
     (case task of
        (CBool _, _) \<Rightarrow> (Inl TypeError, w)
      | (CStr file, conversions_to_apply) \<Rightarrow>
          let img = dataset @ ''/images/'' @ basename file
          in (case copyfile file img w of
                (Inl e, w') \<Rightarrow> (Inl e, w')
              | (Inr _, w') \<Rightarrow> apply_conversions env conversions_to_apply img w'))"

definition dataset_new_dataset :: "'i env \<Rightarrow> string list \<Rightarrow> string list \<Rightarrow> bool \<Rightarrow> 'i world
    \<Rightarrow> (error + path) \<times> 'i world" where
  "dataset_new_dataset env filenames conversions from_store w =
     (case listdir ''data/datasets'' w of
        Inl e \<Rightarrow> (Inl e, w)
      | Inr datasets \<Rightarrow>
          let i = first_free datasets 0;
              dataset = ''data/datasets/'' @ dataset_name i
          in (case mkdir dataset w of
                (Inl e, w1) \<Rightarrow> (Inl e, w1)
              | (Inr _, w1) \<Rightarrow>
          (case mkdir (dataset @ ''/images'') w1 of
                (Inl e, w2) \<Rightarrow> (Inl e, w2)
              | (Inr _, w2) \<Rightarrow>
          (case json_dump_truncate (dataset @ ''/process.json'')
                  (JObj [(''Conversions'', JList (map JStr conversions)),
                         (''Transforms'', JList []), (''Bundled'', JNull)]) w2 of
                (Inl e, w3) \<Rightarrow> (Inl e, w3)
              | (Inr _, w3) \<Rightarrow>
          (case conversions_left env filenames conversions from_store w3 of
                Inl e \<Rightarrow> (Inl e, w3)
              | Inr left \<Rightarrow>
          (case sequential_map (\<lambda>(r, cs). case row_get r ''File'' of
                                            Inl e \<Rightarrow> Inl e | Inr f \<Rightarrow> Inr (f, cs)) left of
                Inl e \<Rightarrow> (Inl e, w3)
              | Inr tasks \<Rightarrow>
          (case process_map (finish_time env) (Nested (copy_and_apply env dataset)) tasks True
                  w3 of
                (Inl e, w4) \<Rightarrow> (Inl e, w4)
              | (Inr new_images, w4) \<Rightarrow>
          (case sequential_map (\<lambda>(new, (r, _)). case row_get r ''Class'' of
                                   Inl e \<Rightarrow> Inl e
                                 | Inr cls \<Rightarrow> Inr [(''File'', CStr new), (''Class'', cls)])
                  (zip new_images left) of
                Inl e \<Rightarrow> (Inl e, w4)
              | Inr new_data \<Rightarrow>
          (case to_csv (dataset @ ''/log.csv'') ''Index'' [''File'', ''Class''] new_data w4 of
                (Inl e, w5) \<Rightarrow> (Inl e, w5)
              | (Inr _, w5) \<Rightarrow> (Inr dataset, w5))))))))))"

section \<open>dataset.py and construction.py: materialization\<close>

definition load_image_array :: "'i world \<Rightarrow> cell \<Rightarrow> error + 'i" where
  "load_image_array w fp =
     (case fp of
        CBool _ \<Rightarrow> Inl TypeError
      | CStr p \<Rightarrow> (case map_of (image_files w) p of None \<Rightarrow> Inl FileNotFoundError | Some img \<Rightarrow> Inr img))"

text \<open>\<^verbatim>\<open>for f in transforms: images = process_map(TRANSFORMS[f], images)\<close>\<close>

fun apply_transforms :: "'i env \<Rightarrow> string list \<Rightarrow> 'i list \<Rightarrow> 'i world
    \<Rightarrow> (error + 'i list) \<times> 'i world" where
  "apply_transforms env [] images w = (Inr images, w)"
| "apply_transforms env (f # transforms) images w =
     (case map_of (TRANSFORMS env) f of
        None \<Rightarrow> (Inl (KeyError f), w)
      | Some t \<Rightarrow>
          (case process_map (finish_time env) (Toplevel (pure_call t)) images False w of
             (Inl e, w') \<Rightarrow> (Inl e, w')
           | (Inr images', w') \<Rightarrow> apply_transforms env transforms images' w'))"

text \<open>
  The \<^verbatim>\<open>try\<close> block of both make-imageset functions: read the ledger, take the file
  column through \<open>locate\<close> (the path as it stands in \<^verbatim>\<open>dataset.py\<close>, below the images
  directory in \<^verbatim>\<open>construction.py\<close>) and load the images.  \<open>None\<close> is the handler's
  \<^verbatim>\<open>return False\<close>.
\<close>

definition load_images :: "'i env \<Rightarrow> path \<Rightarrow> (cell \<Rightarrow> cell) \<Rightarrow> 'i world
    \<Rightarrow> (error + 'i list option) \<times> 'i world" where
  "load_images env dataset locate w =
     (case (case read_csv (dataset @ ''/log.csv'') w of
              Inl e \<Rightarrow> (Inl e, w)
            | Inr df \<Rightarrow>
                (case get_column df ''File'' of
                   Inl e \<Rightarrow> (Inl e, w)
                 | Inr files \<Rightarrow>
                     process_map (finish_time env) (Toplevel (pure_call (load_image_array w)))
                       (map locate files) False w)) of
        (Inl e, w') \<Rightarrow> if e = FileNotFoundError then (Inr None, w') else (Inl e, w')
      | (Inr images, w') \<Rightarrow> (Inr (Some images), w'))"

definition in_images_dir :: "path \<Rightarrow> cell \<Rightarrow> cell" where
  "in_images_dir dataset f =
     (case f of CStr s \<Rightarrow> CStr (dataset @ ''/images/'' @ s)
              | CBool b \<Rightarrow> CStr (dataset @ ''/images/'' @ (if b then ''True'' else ''False'')))"

definition dataset_make_imageset :: "'i env \<Rightarrow> path \<Rightarrow> string list \<Rightarrow> 'i world
    \<Rightarrow> (error + bool) \<times> 'i world" where
  "dataset_make_imageset env dataset transforms w =
     (case load_images env dataset (\<lambda>f. f) w of
        (Inl e, w1) \<Rightarrow> (Inl e, w1)
      | (Inr None, w1) \<Rightarrow> (Inr False, w1)
      | (Inr (Some loaded), w1) \<Rightarrow>
     (case apply_transforms env transforms loaded w1 of
        (Inl e, w2) \<Rightarrow> (Inl e, w2)
      | (Inr images, w2) \<Rightarrow>
     (case json_load (dataset @ ''/process.json'') w2 of
        Inl e \<Rightarrow> (Inl e, w2)
      | Inr data \<Rightarrow>
     (case json_set ''Transforms'' (JList (map JStr transforms)) data of
        Inl e \<Rightarrow> (Inl e, w2)
      | Inr data' \<Rightarrow>
     (case json_dump_truncate (dataset @ ''/process.json'') data' w2 of
        (Inl e, w3) \<Rightarrow> (Inl e, w3)
      | (Inr _, w3) \<Rightarrow>
     (case np_save (dataset @ ''/X.npy'') (ImageArray images) w3 of
        (Inl e, w4) \<Rightarrow> (Inl e, w4)
      | (Inr _, w4) \<Rightarrow> (Inr True, w4)))))))"

definition construction_make_imageset :: "'i env \<Rightarrow> path \<Rightarrow> string list \<Rightarrow> 'i world
    \<Rightarrow> (error + bool) \<times> 'i world" where
  "construction_make_imageset env dataset transforms w =
     (case load_images env dataset (in_images_dir dataset) w of
        (Inl e, w1) \<Rightarrow> (Inl e, w1)
      | (Inr None, w1) \<Rightarrow> (Inr False, w1)
      | (Inr (Some loaded), w1) \<Rightarrow>
     (case apply_transforms env transforms loaded w1 of
        (Inl e, w2) \<Rightarrow> (Inl e, w2)
      | (Inr images, w2) \<Rightarrow>
     (case json_load (dataset @ ''/process.json'') w2 of
        Inl e \<Rightarrow> (Inl e, w2)
      | Inr data \<Rightarrow>
     (case json_set ''Transforms'' (JList (map JStr transforms)) data of
        Inl e \<Rightarrow> (Inl e, w2)
      | Inr data' \<Rightarrow>
     (case json_dump_at_end (dataset @ ''/process.json'') data' w2 of
        (Inl e, w3) \<Rightarrow> (Inl e, w3)
      | (Inr _, w3) \<Rightarrow>
     (case np_save (dataset @ ''/X.npy'') (ImageArray images) w3 of
        (Inl e, w4) \<Rightarrow> (Inl e, w4)
      | (Inr _, w4) \<Rightarrow> (Inr True, w4)))))))"

text \<open>\<^verbatim>\<open>int(bool(CLASSES[c])) if bundled else CLASSES[c]\<close>\<close>

definition class_label :: "'i env \<Rightarrow> bool \<Rightarrow> cell \<Rightarrow> error + int" where
  "class_label env bundled c =
     (case map_of (CLASSES env) c of
        None \<Rightarrow> Inl (KeyError (case c of CStr s \<Rightarrow> s | CBool b \<Rightarrow> if b then ''True'' else ''False''))
      | Some n \<Rightarrow> Inr (if bundled then (if n \<noteq> 0 then 1 else 0) else n))"

definition make_labelset :: "'i env \<Rightarrow> path \<Rightarrow> bool \<Rightarrow> 'i world \<Rightarrow> (error + bool) \<times> 'i world" where
  "make_labelset env dataset bundled w =
     (case read_csv (dataset @ ''/log.csv'') w of
        Inl e \<Rightarrow> (Inl e, w)
      | Inr df \<Rightarrow>
     (case get_column df ''Class'' of
        Inl e \<Rightarrow> (Inl e, w)
      | Inr cs \<Rightarrow>
     (case sequential_map (class_label env bundled) cs of
        Inl e \<Rightarrow> (Inl e, w)
      | Inr classes \<Rightarrow>
     (case json_load (dataset @ ''/process.json'') w of
        Inl e \<Rightarrow> (Inl e, w)
      | Inr data \<Rightarrow>
     (case json_set ''Bundled'' (JBool bundled) data of
        Inl e \<Rightarrow> (Inl e, w)
      | Inr data' \<Rightarrow>
     (case json_dump_truncate (dataset @ ''/process.json'') data' w of
        (Inl e, w1) \<Rightarrow> (Inl e, w1)
      | (Inr _, w1) \<Rightarrow>
     (case np_save (dataset @ ''/Y.npy'') (LabelArray classes) w1 of
        (Inl e, w2) \<Rightarrow> (Inl e, w2)
      | (Inr _, w2) \<Rightarrow> (Inr True, w2))))))))"

text \<open>\<^verbatim>\<open>_make_imageset(dataset, transforms) and _make_labelset(dataset, bundled)\<close>\<close>

definition make_data :: "'i env \<Rightarrow> path \<Rightarrow> string list \<Rightarrow> bool \<Rightarrow> 'i world
    \<Rightarrow> (error + bool) \<times> 'i world" where
  "make_data env dataset transforms bundled w =
     (case dataset_make_imageset env dataset transforms w of
        (Inl e, w') \<Rightarrow> (Inl e, w')
      | (Inr ok, w') \<Rightarrow> if ok then make_labelset env dataset bundled w' else (Inr False, w'))"

definition get_process :: "path \<Rightarrow> 'i world \<Rightarrow> error + json" where
  "get_process dataset w = json_load (dataset @ ''/process.json'') w"

section \<open>Well-formed disks and examples\<close>

text \<open>On a real disk every file and directory lies in a directory.\<close>

definition wf_world :: "'i world \<Rightarrow> bool" where
  "wf_world w = (\<forall>p \<in> set (all_paths w). isdir w (dirname p))"

text \<open>
  A small instance for concrete runs: images are numbers, \<open>png\<close> renames the file,
  \<open>gray\<close> changes it in place, and the pool finishes the tasks in reverse order.
\<close>

definition conv_png :: "nat conversion" where
  "conv_png p imgs =
     (case map_of imgs p of
        None \<Rightarrow> (Inl FileNotFoundError, imgs)
      | Some i \<Rightarrow> (Inr (p @ ''.png''), AList.update (p @ ''.png'') i (AList.delete p imgs)))"

definition conv_gray :: "nat conversion" where
  "conv_gray p imgs =
     (case map_of imgs p of
        None \<Rightarrow> (Inl FileNotFoundError, imgs)
      | Some i \<Rightarrow> (Inr p, AList.update p (i + 100) imgs))"

definition example_env :: "nat env" where
  "example_env =
     \<lparr>CONVERSIONS = [(''png'', conv_png), (''gray'', conv_gray)],
      TRANSFORMS = [(''double'', \<lambda>i. Inr (2 * i)), (''inc'', \<lambda>i. Inr (i + 1))],
      CLASSES = [(CStr ''none'', 0), (CStr ''bar'', 2), (CStr ''pie'', 3)],
      DEFAULT_CLASS = CStr ''none'',
      finish_time = (\<lambda>i. 10 - i)\<rparr>"

definition empty_disk :: "nat world" where
  "empty_disk =
     \<lparr>dirs = [], image_files = [(''a.jpg'', 1), (''b.jpg'', 2)], csv_files = [],
      json_files = [], npy_files = []\<rparr>"


text \<open>A dataset of five images whose classes have the ids 0, 0, 2, 3 and 0.\<close>

definition labelled_disk :: "nat world" where
  "labelled_disk =
     \<lparr>dirs = [''data'', ''data/images'', ''data/datasets'', ''data/datasets/dataset-0'',
              ''data/datasets/dataset-0/images''],
      image_files = [],
      csv_files = [(''data/datasets/dataset-0/log.csv'',
        \<lparr>index_label = ''Index'', columns = [''File'', ''Class''],
         rows = [[(''File'', CStr ''a.png''), (''Class'', CStr ''none'')],
                 [(''File'', CStr ''b.png''), (''Class'', CStr ''none'')],
                 [(''File'', CStr ''c.png''), (''Class'', CStr ''bar'')],
                 [(''File'', CStr ''d.png''), (''Class'', CStr ''pie'')],
                 [(''File'', CStr ''e.png''), (''Class'', CStr ''none'')]]\<rparr>)],
      json_files = [(''data/datasets/dataset-0/process.json'',
        [JObj [(''Conversions'', JList []), (''Transforms'', JList []), (''Bundled'', JNull)]])],
      npy_files = []\<rparr>"


text \<open>
  The store after both initializations, and the store after \<^verbatim>\<open>dataset.py\<close> has built a
  dataset of no files on it, with two conversions requested.
\<close>

definition store_disk :: "nat world" where
  "store_disk = snd (init_label_store example_env (snd (init_data_store empty_disk)))"

definition fresh_disk :: "nat world" where
  "fresh_disk =
     snd (dataset_new_dataset example_env [] [''png'', ''gray''] False store_disk)"

text \<open>The bookkeeping of a disk: everything but the image files.\<close>

definition same_books :: "'i world \<Rightarrow> 'i world \<Rightarrow> bool" where
  "same_books w w' =
     (dirs w' = dirs w \<and> csv_files w' = csv_files w \<and> json_files w' = json_files w
      \<and> npy_files w' = npy_files w)"

text \<open>
  A store whose ledger has the index header \<^verbatim>\<open>Index\<close> and two files: \<^verbatim>\<open>a.jpg\<close>, already
  converted to PNG, and \<^verbatim>\<open>b.jpg\<close>, not converted at all.
\<close>

definition indexed_store_disk :: "nat world" where
  "indexed_store_disk =
     store_disk\<lparr>csv_files := [(''data/log.csv'',
       \<lparr>index_label = ''Index'', columns = [''File'', ''Class'', ''png'', ''gray''],
        rows = [[(''File'', CStr ''a.jpg''), (''Class'', CStr ''bar''),
                 (''png'', CBool True), (''gray'', CBool False)],
                [(''File'', CStr ''b.jpg''), (''Class'', CStr ''pie''),
                 (''png'', CBool False), (''gray'', CBool False)]]\<rparr>)]\<rparr>"


section \<open>Properties of the parallel map\<close>

lemma set_completion_order [simp]: "set (completion_order finish n) = {0..<n}"
  by (simp add: completion_order_def)









lemma sequential_map_length: "sequential_map g xs = Inr ys \<Longrightarrow> length ys = length xs"
  by (induction xs arbitrary: ys) (auto split: sum.splits)

lemma process_map_unfold:
  "process_map finish f args packed s =
     (if args = [] then (Inr [], s)
      else if \<not> picklable f then (Inl AttributeError, s)
      else (case run_tasks (completion_order finish (length args))
                   (\<lambda>i. call_of f (args ! i)) s of
              (Inl e, s') \<Rightarrow> (Inl e, s')
            | (Inr slots, s') \<Rightarrow> (Inr (gather slots), s')))"
  by (simp add: process_map_def map_async_def mapstar_def starmapstar_def)

lemma process_map_empty: "process_map finish f [] packed s = (Inr [], s)"
  by (simp add: process_map_unfold)

lemma process_map_nested:
  "args \<noteq> [] \<Longrightarrow> process_map finish (Nested c) args packed s = (Inl AttributeError, s)"
  by (simp add: process_map_unfold picklable_def)

lemma process_map_nested_Inr:
  "process_map finish (Nested c) args packed s = (Inr ys, s') \<Longrightarrow> args = [] \<and> ys = [] \<and> s' = s"
  by (cases "args = []") (auto simp: process_map_empty process_map_nested)





section \<open>Materialization without a ledger\<close>

text \<open>
  Claim C2.  When the dataset has no \<^verbatim>\<open>log.csv\<close>, \<open>make_data\<close> returns false and leaves
  the whole state as it was: no \<^verbatim>\<open>Y.npy\<close> appears and \<^verbatim>\<open>process.json\<close> is not touched.
  The label step is not run: run on that state it would raise \<^verbatim>\<open>FileNotFoundError\<close>.
\<close>

theorem make_data_ledger_absent:
  "map_of (csv_files w) (dataset @ ''/log.csv'') = None \<Longrightarrow>
   make_data env dataset transforms bundled w = (Inr False, w)
   \<and> make_labelset env dataset bundled w = (Inl FileNotFoundError, w)"
  by (simp add: make_data_def dataset_make_imageset_def load_images_def read_csv_def
      make_labelset_def)

theorem make_data_ledger_absent_witness:
  "map_of (csv_files empty_disk) (''data/datasets/dataset-0'' @ ''/log.csv'') = None
   \<and> make_data example_env ''data/datasets/dataset-0'' [''double''] True empty_disk
       = (Inr False, empty_disk)
   \<and> map_of (npy_files empty_disk) ''data/datasets/dataset-0/Y.npy'' = None"
proof -
  have absent: "map_of (csv_files empty_disk) (''data/datasets/dataset-0'' @ ''/log.csv'') = None"
    by (simp add: empty_disk_def)
  have "map_of (npy_files empty_disk) ''data/datasets/dataset-0/Y.npy'' = None"
    by (simp add: empty_disk_def)
  with absent make_data_ledger_absent [OF absent, of example_env "[''double'']" True]
  show ?thesis by simp
qed

section \<open>Initializing the store\<close>




lemma wf_absent_child:
  "wf_world w \<Longrightarrow> \<not> path_exists w d \<Longrightarrow> dirname p = d \<Longrightarrow> d \<noteq> [] \<Longrightarrow> \<not> path_exists w p"
  by (auto simp: wf_world_def path_exists_def isdir_def all_paths_def)





section \<open>Labels\<close>

lemma sequential_map_class_label:
  "map (map_of (CLASSES env)) cs = map Some ids \<Longrightarrow>
   sequential_map (class_label env bundled) cs
     = Inr (if bundled then map (\<lambda>n. if n = 0 then 0 else 1) ids else ids)"
proof (induction cs arbitrary: ids)
  case Nil
  then show ?case by simp
next
  case (Cons c cs)
  then obtain n ns where ids: "ids = n # ns" "map_of (CLASSES env) c = Some n"
    "map (map_of (CLASSES env)) cs = map Some ns"
    by (cases ids) auto
  from Cons.IH [OF ids(3)] ids(1,2) show ?case
    by (simp add: class_label_def)
qed

lemma open_write_json_files [simp]:
  "open_write p (w\<lparr>json_files := js\<rparr>) = open_write p w"
  by (simp add: open_write_def isdir_def)

text \<open>
  Claim C5.  When the ledger's class column resolves to the integer ids \<open>ids\<close> (and the
  metadata file holds a dictionary and both files can be written), \<open>make_labelset\<close>
  returns true and \<^verbatim>\<open>Y.npy\<close> holds, in row order, the ids themselves when \<open>bundled\<close> is
  false, and 0 for every id 0 and 1 for every other id when \<open>bundled\<close> is true.
\<close>

theorem make_labelset_bundles:
  "read_csv (dataset @ ''/log.csv'') w = Inr df \<Longrightarrow>
   get_column df ''Class'' = Inr cs \<Longrightarrow>
   map (map_of (CLASSES env)) cs = map Some ids \<Longrightarrow>
   json_load (dataset @ ''/process.json'') w = Inr (JObj kvs) \<Longrightarrow>
   open_write (dataset @ ''/process.json'') w = None \<Longrightarrow>
   open_write (dataset @ ''/Y.npy'') w = None \<Longrightarrow>
   fst (make_labelset env dataset bundled w) = Inr True
   \<and> map_of (npy_files (snd (make_labelset env dataset bundled w))) (dataset @ ''/Y.npy'')
       = Some (LabelArray (if bundled then map (\<lambda>n. if n = 0 then 0 else 1) ids else ids))"
  by (simp add: make_labelset_def sequential_map_class_label json_set_def
      json_dump_truncate_def np_save_def update_conv')

theorem make_labelset_bundles_witness:
  "map_of (npy_files (snd (make_labelset example_env ''data/datasets/dataset-0'' True
       labelled_disk))) (''data/datasets/dataset-0'' @ ''/Y.npy'')
     = Some (LabelArray [0, 0, 1, 1, 0])
   \<and> map_of (npy_files (snd (make_labelset example_env ''data/datasets/dataset-0'' False
       labelled_disk))) (''data/datasets/dataset-0'' @ ''/Y.npy'')
     = Some (LabelArray [0, 0, 2, 3, 0])
   \<and> fst (make_labelset example_env ''data/datasets/dataset-0'' True labelled_disk) = Inr True"
proof -
  let ?d = "''data/datasets/dataset-0''"
  let ?df = "\<lparr>index_label = ''Index'', columns = [''File'', ''Class''],
         rows = [[(''File'', CStr ''a.png''), (''Class'', CStr ''none'')],
                 [(''File'', CStr ''b.png''), (''Class'', CStr ''none'')],
                 [(''File'', CStr ''c.png''), (''Class'', CStr ''bar'')],
                 [(''File'', CStr ''d.png''), (''Class'', CStr ''pie'')],
                 [(''File'', CStr ''e.png''), (''Class'', CStr ''none'')]]\<rparr>"
  let ?cs = "[CStr ''none'', CStr ''none'', CStr ''bar'', CStr ''pie'', CStr ''none'']"
  have csv: "read_csv (?d @ ''/log.csv'') labelled_disk = Inr ?df"
    by (simp add: read_csv_def labelled_disk_def)
  have col: "get_column ?df ''Class'' = Inr ?cs"
    by (simp add: get_column_def row_get_def)
  have ids: "map (map_of (CLASSES example_env)) ?cs = map Some [0, 0, 2, 3, 0]"
    by (simp add: example_env_def)
  have json: "json_load (?d @ ''/process.json'') labelled_disk
      = Inr (JObj [(''Conversions'', JList []), (''Transforms'', JList []), (''Bundled'', JNull)])"
    by (simp add: json_load_def labelled_disk_def)
  have wr: "open_write (?d @ ''/process.json'') labelled_disk = None"
    "open_write (?d @ ''/Y.npy'') labelled_disk = None"
    by (simp_all add: open_write_def labelled_disk_def isdir_def dirname_def)
  from make_labelset_bundles [OF csv col ids json wr, of True]
    make_labelset_bundles [OF csv col ids json wr, of False]
  show ?thesis by simp
qed

section \<open>The parallel map over tasks with side effects\<close>

lemma mset_completion_order: "mset (completion_order finish n) = mset [0..<n]"
  by (simp add: completion_order_def)

lemma run_tasks_indices:
  "run_tasks sched task s = (Inr slots, s') \<Longrightarrow> map fst slots = sched"
  by (induction sched arbitrary: s slots) (auto split: prod.splits sum.splits)

lemma run_tasks_invariant:
  assumes step: "\<And>i s r s'. i \<in> set sched \<Longrightarrow> I s \<Longrightarrow> task i s = (r, s') \<Longrightarrow> I s'"
  shows "I s \<Longrightarrow> run_tasks sched task s = (r, s') \<Longrightarrow> I s'"
  using step
proof (induction sched arbitrary: s r s')
  case Nil
  then show ?case by simp
next
  case (Cons i sched)
  obtain r1 s1 where t: "task i s = (r1, s1)" by (cases "task i s")
  have I1: "I s1" using Cons.prems(3) [of i s r1 s1] Cons.prems(1) t by simp
  show ?case
  proof (cases r1)
    case (Inl e)
    with t Cons.prems(2) I1 show ?thesis by simp
  next
    case (Inr y)
    obtain r2 s2 where rest: "run_tasks sched task s1 = (r2, s2)"
      by (cases "run_tasks sched task s1")
    have "I s2"
      by (rule Cons.IH [OF I1 rest]) (rule Cons.prems(3), simp_all)
    with t Inr rest Cons.prems(2) show ?thesis
      by (auto split: sum.splits)
  qed
qed

lemma gather_slots:
  assumes idx: "map fst slots = sched" and perm: "mset sched = mset [0..<n]"
  shows "length (gather slots) = n" and "i < n \<Longrightarrow> (i, gather slots ! i) \<in> set slots"
proof -
  let ?ss = "sort_key fst slots"
  have m: "mset (map fst ?ss) = mset [0..<n]"
    using idx perm by (metis mset_map mset_sort)
  have "distinct (map fst ?ss)"
    using m by (metis distinct_upt mset_eq_imp_distinct_iff)
  moreover have "sorted (map fst ?ss)" by (rule sorted_sort_key)
  moreover have "set (map fst ?ss) = set [0..<n]"
    using m by (metis mset_eq_setD)
  ultimately have firsts: "map fst ?ss = [0..<n]"
    by (intro sorted_distinct_set_unique) simp_all
  then have len: "length ?ss = n"
    by (metis length_map length_upt minus_nat.diff_0)
  then show "length (gather slots) = n" by (simp add: gather_def)
  assume i: "i < n"
  with firsts len have "fst (?ss ! i) = i"
    by (metis add_0 nth_map nth_upt)
  moreover have "?ss ! i \<in> set slots"
    using i len by (metis nth_mem set_sort)
  moreover have "gather slots ! i = snd (?ss ! i)"
    using i len by (simp add: gather_def)
  ultimately show "(i, gather slots ! i) \<in> set slots"
    by (metis prod.collapse)
qed

lemma process_map_length:
  assumes "process_map finish f args packed s = (Inr ys, s')"
  shows "length ys = length args"
proof (cases "args = [] \<or> \<not> picklable f")
  case True
  with assms show ?thesis by (auto simp: process_map_unfold split: if_splits)
next
  case False
  with assms obtain slots where
    run: "run_tasks (completion_order finish (length args)) (\<lambda>i. call_of f (args ! i)) s
            = (Inr slots, s')"
    and ys: "ys = gather slots"
    by (auto simp: process_map_unfold split: prod.splits sum.splits)
  from gather_slots(1) [OF run_tasks_indices [OF run] mset_completion_order] ys
  show ?thesis by simp
qed

lemma process_map_invariant:
  assumes step: "\<And>x s r s'. x \<in> set args \<Longrightarrow> I s \<Longrightarrow> call_of f x s = (r, s') \<Longrightarrow> I s'"
    and "I s" and run: "process_map finish f args packed s = (r, s')"
  shows "I s'"
proof (cases "args = [] \<or> \<not> picklable f")
  case True
  with run assms(2) show ?thesis by (auto simp: process_map_unfold split: if_splits)
next
  case False
  let ?sched = "completion_order finish (length args)"
  obtain r0 where run0: "run_tasks ?sched (\<lambda>i. call_of f (args ! i)) s = (r0, s')"
    using run False by (auto simp: process_map_unfold split: prod.splits sum.splits)
  show ?thesis
  proof (rule run_tasks_invariant [where I = I, OF _ assms(2) run0])
    fix i s r s'
    assume "i \<in> set ?sched" "I s" "call_of f (args ! i) s = (r, s')"
    then show "I s'" by (intro step [of "args ! i" s r s']) simp_all
  qed
qed

section \<open>What each operation changes\<close>

lemma mkdir_Inr:
  "mkdir p w = (Inr u, w') \<Longrightarrow>
   w' = w\<lparr>dirs := dirs w @ [p]\<rparr> \<and> \<not> path_exists w p \<and> isdir w (dirname p)"
  by (auto simp: mkdir_def split: if_splits)

lemma json_dump_truncate_Inr:
  "json_dump_truncate p d w = (Inr u, w') \<Longrightarrow>
   w' = w\<lparr>json_files := AList.update p [d] (json_files w)\<rparr>"
  by (auto simp: json_dump_truncate_def split: option.splits)

lemma json_dump_at_end_Inr:
  "json_dump_at_end p d w = (Inr u, w') \<Longrightarrow>
   \<exists>ds. map_of (json_files w) p = Some ds
     \<and> w' = w\<lparr>json_files := AList.update p (ds @ [d]) (json_files w)\<rparr>"
  by (auto simp: json_dump_at_end_def split: option.splits)

lemma to_csv_Inr:
  "to_csv p label cols rws w = (Inr u, w') \<Longrightarrow>
   w' = w\<lparr>csv_files := AList.update p \<lparr>index_label = label, columns = cols, rows = rws\<rparr>
          (csv_files w)\<rparr>"
  by (auto simp: to_csv_def split: option.splits)

lemma np_save_Inr:
  "np_save p a w = (Inr u, w') \<Longrightarrow> w' = w\<lparr>npy_files := AList.update p a (npy_files w)\<rparr>"
  by (auto simp: np_save_def split: option.splits)

lemma same_books_refl [simp]: "same_books w w"
  by (simp add: same_books_def)

lemma same_books_trans: "same_books w w1 \<Longrightarrow> same_books w1 w2 \<Longrightarrow> same_books w w2"
  by (simp add: same_books_def)

lemma copyfile_books: "copyfile src dst w = (r, w') \<Longrightarrow> same_books w w'"
  by (auto simp: copyfile_def same_books_def split: option.splits if_splits)

lemma call_conversion_books: "call_conversion env c img w = (r, w') \<Longrightarrow> same_books w w'"
  by (auto simp: call_conversion_def same_books_def split: option.splits prod.splits sum.splits)

lemma apply_conversions_books:
  "apply_conversions env cs img w = (r, w') \<Longrightarrow> same_books w w'"
proof (induction cs arbitrary: img w)
  case Nil
  then show ?case by simp
next
  case (Cons c cs)
  obtain r1 w1 where c1: "call_conversion env c img w = (r1, w1)"
    by (cases "call_conversion env c img w")
  then have b1: "same_books w w1" by (rule call_conversion_books)
  show ?case
  proof (cases r1)
    case (Inl e)
    with c1 Cons.prems b1 show ?thesis by simp
  next
    case (Inr img')
    with c1 Cons.prems have "apply_conversions env cs img' w1 = (r, w')" by simp
    then have "same_books w1 w'" by (rule Cons.IH)
    with b1 show ?thesis by (rule same_books_trans)
  qed
qed

lemma copy_and_apply_books: "copy_and_apply env dataset task w = (r, w') \<Longrightarrow> same_books w w'"
proof -
  assume run: "copy_and_apply env dataset task w = (r, w')"
  obtain f cs where task: "task = (f, cs)" by (cases task)
  show ?thesis
  proof (cases f)
    case (CBool b)
    with run task show ?thesis by (simp add: copy_and_apply_def)
  next
    case (CStr fl)
    let ?img = "dataset @ ''/images/'' @ basename fl"
    obtain r1 w1 where c1: "copyfile fl ?img w = (r1, w1)"
      by (cases "copyfile fl ?img w")
    then have b1: "same_books w w1" by (rule copyfile_books)
    show ?thesis
    proof (cases r1)
      case (Inl e)
      with c1 run task CStr b1 show ?thesis by (simp add: copy_and_apply_def)
    next
      case (Inr u)
      with c1 run task CStr have "apply_conversions env cs ?img w1 = (r, w')"
        by (simp add: copy_and_apply_def)
      then have "same_books w1 w'" by (rule apply_conversions_books)
      with b1 show ?thesis by (rule same_books_trans)
    qed
  qed
qed

lemma process_map_copy_and_apply_books:
  assumes "process_map finish (Nested (copy_and_apply env dataset)) tasks packed w = (r, w')"
  shows "same_books w w'"
proof (rule process_map_invariant [where I = "same_books w", OF _ _ assms])
  show "same_books w w" by simp
next
  fix x s r s'
  assume "same_books w s" "call_of (Nested (copy_and_apply env dataset)) x s = (r, s')"
  then show "same_books w s'"
    by (auto simp: call_of_def intro: same_books_trans copy_and_apply_books)
qed

lemma process_map_pure_state:
  assumes "process_map finish (Toplevel (pure_call g)) args packed s = (r, s')"
  shows "s' = s"
  by (rule process_map_invariant [where I = "\<lambda>t. t = s", OF _ _ assms])
    (simp_all add: pure_call_def call_of_def)

lemma apply_transforms_state:
  "apply_transforms env transforms images w = (r, w') \<Longrightarrow> w' = w"
proof (induction transforms arbitrary: images)
  case Nil
  then show ?case by simp
next
  case (Cons f transforms)
  show ?case
  proof (cases "map_of (TRANSFORMS env) f")
    case None
    with Cons.prems show ?thesis by simp
  next
    case (Some t)
    obtain r1 w1 where p: "process_map (finish_time env) (Toplevel (pure_call t)) images False w = (r1, w1)"
      by (cases "process_map (finish_time env) (Toplevel (pure_call t)) images False w")
    then have w1: "w1 = w" by (rule process_map_pure_state)
    show ?thesis
    proof (cases r1)
      case (Inl e)
      with Some p w1 Cons.prems show ?thesis by simp
    next
      case (Inr images')
      with Some p w1 Cons.prems have "apply_transforms env transforms images' w = (r, w')"
        by simp
      then show ?thesis by (rule Cons.IH)
    qed
  qed
qed

lemma load_images_state: "load_images env dataset locate w = (r, w') \<Longrightarrow> w' = w"
  by (auto simp: load_images_def split: sum.splits prod.splits if_splits
      dest: process_map_pure_state)

section \<open>Paths and dataset names\<close>

lemma basename_join:
  "CHR ''/'' \<notin> set n \<Longrightarrow> basename (d @ ''/'' @ n) = n"
proof -
  assume n: "CHR ''/'' \<notin> set n"
  have "takeWhile (\<lambda>c. c \<noteq> CHR ''/'') (rev n @ CHR ''/'' # rev d) = rev n"
    using n by (subst takeWhile_append2) auto
  then show ?thesis by (simp add: basename_def)
qed

lemma dirname_join:
  "CHR ''/'' \<notin> set n \<Longrightarrow> dirname (d @ ''/'' @ n) = d"
proof -
  assume n: "CHR ''/'' \<notin> set n"
  have "dropWhile (\<lambda>c. c \<noteq> CHR ''/'') (rev n @ CHR ''/'' # rev d) = CHR ''/'' # rev d"
    using n by (subst dropWhile_append2) auto
  then show ?thesis by (simp add: dirname_def)
qed

lemma digit_char_no_slash: "d < 10 \<Longrightarrow> digit_char d \<noteq> CHR ''/''"
proof -
  assume "d < 10"
  then have "d = 0 \<or> d = 1 \<or> d = 2 \<or> d = 3 \<or> d = 4 \<or> d = 5 \<or> d = 6 \<or> d = 7 \<or> d = 8 \<or> d = 9"
    by arith
  then show ?thesis
    by (elim disjE) (simp_all add: digit_char_def)
qed

lemma str_nat_no_slash: "CHR ''/'' \<notin> set (str_nat n)"
proof (induction n rule: str_nat.induct)
  case (1 n)
  show ?case
  proof (cases "n < 10")
    case True
    then show ?thesis
      using digit_char_no_slash [of n] by (subst str_nat.simps) auto
  next
    case False
    with 1 have "CHR ''/'' \<notin> set (str_nat (n div 10))" by simp
    moreover have "digit_char (n mod 10) \<noteq> CHR ''/''"
      by (rule digit_char_no_slash) simp
    ultimately show ?thesis
      using False by (subst str_nat.simps) auto
  qed
qed

lemma dataset_name_no_slash: "CHR ''/'' \<notin> set (dataset_name i)"
  using str_nat_no_slash [of i] by (simp add: dataset_name_def)

lemma dataset_path_parts:
  "dirname (''data/datasets/'' @ dataset_name i) = ''data/datasets''"
  "basename (''data/datasets/'' @ dataset_name i) = dataset_name i"
  using dirname_join [OF dataset_name_no_slash, of "''data/datasets''" i]
    basename_join [OF dataset_name_no_slash, of "''data/datasets''" i]
  by simp_all

lemma dataset_subpath_dirname:
  "dirname ((''data/datasets/'' @ dataset_name i) @ ''/images'')
     = ''data/datasets/'' @ dataset_name i"
  "dirname ((''data/datasets/'' @ dataset_name i) @ ''/process.json'')
     = ''data/datasets/'' @ dataset_name i"
  "dirname ((''data/datasets/'' @ dataset_name i) @ ''/log.csv'')
     = ''data/datasets/'' @ dataset_name i"
  using dirname_join [of "''images''" "''data/datasets/'' @ dataset_name i"]
    dirname_join [of "''process.json''" "''data/datasets/'' @ dataset_name i"]
    dirname_join [of "''log.csv''" "''data/datasets/'' @ dataset_name i"]
  by simp_all

lemma listdir_member:
  "listdir d w = Inr names \<Longrightarrow> path_exists w p \<Longrightarrow> dirname p = d \<Longrightarrow> basename p \<in> set names"
  by (auto simp: listdir_def path_exists_def split: if_splits)

lemma first_free_unused: "dataset_name (first_free datasets i) \<notin> set datasets"
  by (induction datasets i rule: first_free.induct) (subst first_free.simps, simp)



section \<open>What a successful construction has done\<close>

lemma step_Inr:
  "(case m of (Inl e, w1) \<Rightarrow> (Inl e, w1) | (Inr x, w1) \<Rightarrow> k x w1) = (Inr p, w') \<Longrightarrow>
   \<exists>x w1. m = (Inr x, w1) \<and> k x w1 = (Inr p, w')"
  by (cases m; cases "fst m") auto

lemma pure_step_Inr:
  "(case m of Inl e \<Rightarrow> (Inl e, w) | Inr x \<Rightarrow> k x) = (Inr p, w') \<Longrightarrow>
   \<exists>x. m = Inr x \<and> k x = (Inr p, w')"
  by (cases m) auto

lemma storage_new_dataset_Inr:
  assumes "storage_new_dataset w = (Inr p, w')"
  shows "\<exists>ds. listdir ''data/datasets'' w = Inr ds
    \<and> p = ''data/datasets/'' @ dataset_name (first_free ds 0)
    \<and> \<not> path_exists w p
    \<and> w' = w\<lparr>dirs := dirs w @ [p, p @ ''/images''],
             csv_files := AList.update (p @ ''/log.csv'')
               \<lparr>index_label = [], columns = [''File'', ''Class''], rows = []\<rparr> (csv_files w),
             json_files := AList.update (p @ ''/process.json'')
               [JObj [(''Conversions'', JList []), (''Transforms'', JList [])]] (json_files w)\<rparr>"
  using assms unfolding storage_new_dataset_def Let_def
  apply -
  apply (drule pure_step_Inr, elim exE conjE)
  apply (drule step_Inr, elim exE conjE)
  apply (drule step_Inr, elim exE conjE)
  apply (drule step_Inr, elim exE conjE)
  apply (drule step_Inr, elim exE conjE)
  apply (drule mkdir_Inr)
  apply (drule mkdir_Inr)
  apply (drule to_csv_Inr)
  apply (drule json_dump_truncate_Inr)
  apply clarsimp
  done


lemma dataset_new_dataset_Inr:
  assumes "dataset_new_dataset env filenames conversions from_store w = (Inr p, w')"
  shows "\<exists>ds w3 left tasks new_images w4 new_data.
      listdir ''data/datasets'' w = Inr ds
    \<and> p = ''data/datasets/'' @ dataset_name (first_free ds 0)
    \<and> \<not> path_exists w p
    \<and> w3 = w\<lparr>dirs := dirs w @ [p, p @ ''/images''],
             json_files := AList.update (p @ ''/process.json'')
               [JObj [(''Conversions'', JList (map JStr conversions)),
                      (''Transforms'', JList []), (''Bundled'', JNull)]] (json_files w)\<rparr>
    \<and> conversions_left env filenames conversions from_store w3 = Inr left
    \<and> sequential_map (\<lambda>(r, cs). case row_get r ''File'' of
                                     Inl e \<Rightarrow> Inl e | Inr f \<Rightarrow> Inr (f, cs)) left = Inr tasks
    \<and> process_map (finish_time env) (Nested (copy_and_apply env p)) tasks True w3 = (Inr new_images, w4)
    \<and> sequential_map (\<lambda>(new, (r, _)). case row_get r ''Class'' of
                                   Inl e \<Rightarrow> Inl e
                                 | Inr cls \<Rightarrow> Inr [(''File'', CStr new), (''Class'', cls)])
          (zip new_images left) = Inr new_data
    \<and> w' = w4\<lparr>csv_files := AList.update (p @ ''/log.csv'')
               \<lparr>index_label = ''Index'', columns = [''File'', ''Class''], rows = new_data\<rparr>
               (csv_files w4)\<rparr>"
  using assms unfolding dataset_new_dataset_def Let_def
  apply -
  apply (drule pure_step_Inr, elim exE conjE)
  apply (drule step_Inr, elim exE conjE)
  apply (drule step_Inr, elim exE conjE)
  apply (drule step_Inr, elim exE conjE)
  apply (drule pure_step_Inr, elim exE conjE)
  apply (drule pure_step_Inr, elim exE conjE)
  apply (drule step_Inr, elim exE conjE)
  apply (drule pure_step_Inr, elim exE conjE)
  apply (drule step_Inr, elim exE conjE)
  apply (drule mkdir_Inr)
  apply (drule mkdir_Inr)
  apply (drule json_dump_truncate_Inr)
  apply (drule to_csv_Inr)
  apply clarsimp
  done

section \<open>The index of a new dataset\<close>




section \<open>Metadata after materialization and after construction\<close>

lemma option_step:
  "(case x of None \<Rightarrow> (Inr False, w1) | Some l \<Rightarrow> k l) = (Inr True, w') \<Longrightarrow>
   \<exists>l. x = Some l \<and> k l = (Inr True, w')"
  by (cases x) auto

lemma json_set_Inr:
  "json_set k v data = Inr data' \<Longrightarrow> \<exists>kvs. data = JObj kvs \<and> data' = JObj (AList.update k v kvs)"
  by (cases data) (simp_all add: json_set_def)

lemma json_load_Inr:
  "json_load p w = Inr d \<Longrightarrow> map_of (json_files w) p = Some [d]"
  by (auto simp: json_load_def split: option.splits list.splits)

lemma dataset_make_imageset_True:
  assumes "dataset_make_imageset env dataset transforms w = (Inr True, w')"
  shows "\<exists>kvs images.
      json_load (dataset @ ''/process.json'') w = Inr (JObj kvs)
    \<and> w' = w\<lparr>json_files := AList.update (dataset @ ''/process.json'')
               [JObj (AList.update ''Transforms'' (JList (map JStr transforms)) kvs)] (json_files w),
             npy_files := AList.update (dataset @ ''/X.npy'') (ImageArray images) (npy_files w)\<rparr>"
  using assms unfolding dataset_make_imageset_def
  apply -
  apply (drule step_Inr, elim exE conjE)
  apply (drule option_step, elim exE conjE)
  apply (drule step_Inr, elim exE conjE)
  apply (drule pure_step_Inr, elim exE conjE)
  apply (drule pure_step_Inr, elim exE conjE)
  apply (drule step_Inr, elim exE conjE)
  apply (drule step_Inr, elim exE conjE)
  apply (drule load_images_state)
  apply (drule apply_transforms_state)
  apply (drule json_set_Inr)
  apply (drule json_dump_truncate_Inr)
  apply (drule np_save_Inr)
  apply clarsimp
  apply (rule exI, rule refl)
  done

lemma construction_make_imageset_True:
  assumes "construction_make_imageset env dataset transforms w = (Inr True, w')"
  shows "\<exists>kvs images.
      json_load (dataset @ ''/process.json'') w = Inr (JObj kvs)
    \<and> w' = w\<lparr>json_files := AList.update (dataset @ ''/process.json'')
               [JObj kvs, JObj (AList.update ''Transforms'' (JList (map JStr transforms)) kvs)]
               (json_files w),
             npy_files := AList.update (dataset @ ''/X.npy'') (ImageArray images) (npy_files w)\<rparr>"
  using assms unfolding construction_make_imageset_def
  apply -
  apply (drule step_Inr, elim exE conjE)
  apply (drule option_step, elim exE conjE)
  apply (drule step_Inr, elim exE conjE)
  apply (drule pure_step_Inr, elim exE conjE)
  apply (drule pure_step_Inr, elim exE conjE)
  apply (drule step_Inr, elim exE conjE)
  apply (drule step_Inr, elim exE conjE)
  apply (drule load_images_state)
  apply (drule apply_transforms_state)
  apply (drule json_set_Inr)
  apply (frule json_load_Inr)
  apply (drule json_dump_at_end_Inr)
  apply (drule np_save_Inr)
  apply clarsimp
  apply (rule exI, rule refl)
  done

lemma dataset_make_imageset_metadata:
  assumes "dataset_make_imageset env dataset transforms w = (Inr True, w')"
  shows "\<exists>kvs images. get_process dataset w' = Inr (JObj kvs)
    \<and> map_of kvs ''Transforms'' = Some (JList (map JStr transforms))
    \<and> map_of (npy_files w') (dataset @ ''/X.npy'') = Some (ImageArray images)"
proof -
  from dataset_make_imageset_True [OF assms] obtain kvs images where
    w': "w' = w\<lparr>json_files := AList.update (dataset @ ''/process.json'')
               [JObj (AList.update ''Transforms'' (JList (map JStr transforms)) kvs)] (json_files w),
             npy_files := AList.update (dataset @ ''/X.npy'') (ImageArray images) (npy_files w)\<rparr>"
    by blast
  show ?thesis
    by (intro exI [of _ "AList.update ''Transforms'' (JList (map JStr transforms)) kvs"]
        exI [of _ images])
      (simp add: w' get_process_def json_load_def update_conv')
qed

lemma construction_make_imageset_corrupts:
  assumes "construction_make_imageset env dataset transforms w = (Inr True, w')"
  shows "get_process dataset w' = Inl JSONDecodeError"
proof -
  from construction_make_imageset_True [OF assms] obtain kvs images where
    w': "w' = w\<lparr>json_files := AList.update (dataset @ ''/process.json'')
               [JObj kvs, JObj (AList.update ''Transforms'' (JList (map JStr transforms)) kvs)]
               (json_files w),
             npy_files := AList.update (dataset @ ''/X.npy'') (ImageArray images) (npy_files w)\<rparr>"
    by blast
  show ?thesis
    by (simp add: w' get_process_def json_load_def update_conv')
qed

lemma storage_new_dataset_process:
  assumes "storage_new_dataset w = (Inr p, w')"
  shows "get_process p w' = Inr (JObj [(''Conversions'', JList []), (''Transforms'', JList [])])"
proof -
  from storage_new_dataset_Inr [OF assms] obtain ds where
    "w' = w\<lparr>dirs := dirs w @ [p, p @ ''/images''],
             csv_files := AList.update (p @ ''/log.csv'')
               \<lparr>index_label = [], columns = [''File'', ''Class''], rows = []\<rparr> (csv_files w),
             json_files := AList.update (p @ ''/process.json'')
               [JObj [(''Conversions'', JList []), (''Transforms'', JList [])]] (json_files w)\<rparr>"
    by blast
  then show ?thesis
    by (simp add: get_process_def json_load_def update_conv')
qed

lemma dataset_new_dataset_process:
  assumes "dataset_new_dataset env filenames conversions from_store w = (Inr p, w')"
  shows "get_process p w' = Inr (JObj [(''Conversions'', JList (map JStr conversions)),
                                       (''Transforms'', JList []), (''Bundled'', JNull)])"
proof -
  from dataset_new_dataset_Inr [OF assms] obtain w3 tasks new_images w4 new_data where
    w3eq: "w3 = w\<lparr>dirs := dirs w @ [p, p @ ''/images''],
             json_files := AList.update (p @ ''/process.json'')
               [JObj [(''Conversions'', JList (map JStr conversions)),
                      (''Transforms'', JList []), (''Bundled'', JNull)]] (json_files w)\<rparr>"
    and pm: "process_map (finish_time env) (Nested (copy_and_apply env p)) tasks True w3 = (Inr new_images, w4)"
    and w'eq: "w' = w4\<lparr>csv_files := AList.update (p @ ''/log.csv'')
               \<lparr>index_label = ''Index'', columns = [''File'', ''Class''], rows = new_data\<rparr>
               (csv_files w4)\<rparr>"
    by blast
  from process_map_copy_and_apply_books [OF pm] have "json_files w4 = json_files w3"
    by (simp add: same_books_def)
  then show ?thesis
    by (simp add: w3eq w'eq get_process_def json_load_def update_conv')
qed

text \<open>
  Claim C3 does not hold for \<^verbatim>\<open>construction.make_imageset\<close>.  On the dataset that
  \<^verbatim>\<open>storage.new_dataset\<close> has just created it returns true, but it has written the new
  record behind the old one (the file was opened with \<^verbatim>\<open>r+\<close> and read to its end), so
  the metadata file holds two documents and \<open>get_process\<close> raises.  On the same kind of
  input \<^verbatim>\<open>dataset._make_imageset\<close>, which reopens the file with \<^verbatim>\<open>w+\<close>, leaves a record
  whose transform list is the given one.
\<close>

theorem construction_make_imageset_breaks_metadata:
  "fst (construction_make_imageset example_env ''data/datasets/dataset-0'' [''double'']
          (snd (storage_new_dataset store_disk))) = Inr True
   \<and> get_process ''data/datasets/dataset-0''
        (snd (construction_make_imageset example_env ''data/datasets/dataset-0'' [''double'']
          (snd (storage_new_dataset store_disk)))) = Inl JSONDecodeError
   \<and> fst (dataset_make_imageset example_env ''data/datasets/dataset-0'' [''double'']
          fresh_disk) = Inr True
   \<and> get_process ''data/datasets/dataset-0''
        (snd (dataset_make_imageset example_env ''data/datasets/dataset-0'' [''double''] fresh_disk))
      = Inr (JObj [(''Conversions'', JList [JStr ''png'', JStr ''gray'']),
                   (''Transforms'', JList [JStr ''double'']), (''Bundled'', JNull)])"
  by code_simp

text \<open>
  Claim C7 does not hold for \<^verbatim>\<open>storage.new_dataset\<close>: the record it writes has the fields
  \<^verbatim>\<open>Conversions\<close> and \<^verbatim>\<open>Transforms\<close> and no field \<^verbatim>\<open>Bundled\<close>, whereas the record that
  \<^verbatim>\<open>dataset.new_dataset\<close> writes has \<^verbatim>\<open>Bundled\<close> set to null.
\<close>

theorem storage_new_dataset_without_bundled:
  "fst (storage_new_dataset store_disk) = Inr ''data/datasets/dataset-0''
   \<and> get_process ''data/datasets/dataset-0'' (snd (storage_new_dataset store_disk))
       = Inr (JObj [(''Conversions'', JList []), (''Transforms'', JList [])])
   \<and> get_process ''data/datasets/dataset-0'' fresh_disk
       = Inr (JObj [(''Conversions'', JList [JStr ''png'', JStr ''gray'']),
                    (''Transforms'', JList []), (''Bundled'', JNull)])"
  by code_simp

section \<open>Construction from a store ledger without index header\<close>

lemma init_label_store_table:
  "init_label_store env w0 = (Inr (), w1) \<Longrightarrow>
   map_of (csv_files w1) ''data/log.csv''
     = Some \<lparr>index_label = [], columns = [''File'', ''Class''] @ map fst (CONVERSIONS env),
             rows = []\<rparr>"
  by (auto simp: init_label_store_def update_conv' dest!: to_csv_Inr)

lemma read_unnamed_index:
  assumes "map_of (csv_files w) ''data/log.csv''
     = Some \<lparr>index_label = [], columns = [''File'', ''Class''] @ map fst (CONVERSIONS env),
             rows = []\<rparr>"
    and "''Index'' \<notin> fst ` set (CONVERSIONS env)"
  shows "conversions_left env filenames conversions True w = Inl (ValueError ''Index Index invalid'')"
  using assms by (simp add: conversions_left_def read_csv_index_col_def)

lemma conversions_left_csv:
  "csv_files w' = csv_files w \<Longrightarrow>
   conversions_left env filenames conversions from_store w'
     = conversions_left env filenames conversions from_store w"
  by (simp add: conversions_left_def read_csv_index_col_def)

lemma new_dataset_prefix:
  assumes wf: "wf_world w" and ds: "listdir ''data/datasets'' w = Inr ds"
    and q: "q = ''data/datasets/'' @ dataset_name (first_free ds 0)"
  shows "mkdir q w = (Inr (), w\<lparr>dirs := dirs w @ [q]\<rparr>)"
    and "mkdir (q @ ''/images'') (w\<lparr>dirs := dirs w @ [q]\<rparr>)
           = (Inr (), w\<lparr>dirs := dirs w @ [q, q @ ''/images'']\<rparr>)"
    and "open_write (q @ ''/process.json'') (w\<lparr>dirs := dirs w @ [q, q @ ''/images'']\<rparr>) = None"
    and "open_write (q @ ''/log.csv'') (w\<lparr>dirs := dirs w @ [q, q @ ''/images'']\<rparr>) = None"
proof -
  have parts: "dirname q = ''data/datasets''" "basename q = dataset_name (first_free ds 0)"
    unfolding q by (rule dataset_path_parts)+
  have fresh: "\<not> path_exists w q"
    using listdir_member [OF ds _ parts(1)] first_free_unused [of ds 0] parts(2) by auto
  have isd: "isdir w ''data/datasets''"
    using ds by (auto simp: listdir_def split: if_splits)
  have qne: "q \<noteq> []" by (simp add: q)
  have sub: "dirname (q @ ''/images'') = q" "dirname (q @ ''/process.json'') = q"
    "dirname (q @ ''/log.csv'') = q"
    unfolding q by (rule dataset_subpath_dirname)+
  have absent: "\<not> path_exists w (q @ ''/images'')" "\<not> path_exists w (q @ ''/process.json'')"
    "\<not> path_exists w (q @ ''/log.csv'')"
    by (rule wf_absent_child [OF wf fresh _ qne], simp add: sub)+
  show "mkdir q w = (Inr (), w\<lparr>dirs := dirs w @ [q]\<rparr>)"
    using fresh isd by (simp add: mkdir_def parts)
  show "mkdir (q @ ''/images'') (w\<lparr>dirs := dirs w @ [q]\<rparr>)
           = (Inr (), w\<lparr>dirs := dirs w @ [q, q @ ''/images'']\<rparr>)"
    using absent(1) by (simp add: mkdir_def sub isdir_def path_exists_def all_paths_def)
  show "open_write (q @ ''/process.json'') (w\<lparr>dirs := dirs w @ [q, q @ ''/images'']\<rparr>) = None"
    using absent(2) by (simp add: open_write_def sub isdir_def path_exists_def all_paths_def)
  show "open_write (q @ ''/log.csv'') (w\<lparr>dirs := dirs w @ [q, q @ ''/images'']\<rparr>) = None"
    using absent(3) by (simp add: open_write_def sub isdir_def path_exists_def all_paths_def)
qed

lemma dataset_new_dataset_unfold:
  assumes "listdir ''data/datasets'' w = Inr ds"
    and "dataset = ''data/datasets/'' @ dataset_name (first_free ds 0)"
  shows "dataset_new_dataset env filenames conversions from_store w =
          (case mkdir dataset w of
                (Inl e, w1) \<Rightarrow> (Inl e, w1)
              | (Inr _, w1) \<Rightarrow>
          (case mkdir (dataset @ ''/images'') w1 of
                (Inl e, w2) \<Rightarrow> (Inl e, w2)
              | (Inr _, w2) \<Rightarrow>
          (case json_dump_truncate (dataset @ ''/process.json'')
                  (JObj [(''Conversions'', JList (map JStr conversions)),
                         (''Transforms'', JList []), (''Bundled'', JNull)]) w2 of
                (Inl e, w3) \<Rightarrow> (Inl e, w3)
              | (Inr _, w3) \<Rightarrow>
          (case conversions_left env filenames conversions from_store w3 of
                Inl e \<Rightarrow> (Inl e, w3)
              | Inr left \<Rightarrow>
          (case sequential_map (\<lambda>(r, cs). case row_get r ''File'' of
                                            Inl e \<Rightarrow> Inl e | Inr f \<Rightarrow> Inr (f, cs)) left of
                Inl e \<Rightarrow> (Inl e, w3)
              | Inr tasks \<Rightarrow>
          (case process_map (finish_time env) (Nested (copy_and_apply env dataset)) tasks True w3 of
                (Inl e, w4) \<Rightarrow> (Inl e, w4)
              | (Inr new_images, w4) \<Rightarrow>
          (case sequential_map (\<lambda>(new, (r, _)). case row_get r ''Class'' of
                                   Inl e \<Rightarrow> Inl e
                                 | Inr cls \<Rightarrow> Inr [(''File'', CStr new), (''Class'', cls)])
                  (zip new_images left) of
                Inl e \<Rightarrow> (Inl e, w4)
              | Inr new_data \<Rightarrow>
          (case to_csv (dataset @ ''/log.csv'') ''Index'' [''File'', ''Class''] new_data w4 of
                (Inl e, w5) \<Rightarrow> (Inl e, w5)
              | (Inr _, w5) \<Rightarrow> (Inr dataset, w5)))))))))"
  unfolding dataset_new_dataset_def Let_def assms by simp

text \<open>
  Claim C9.  While \<^verbatim>\<open>data/log.csv\<close> is as \<open>init_label_store\<close> wrote it (its index column
  has no header, and no conversion key is \<^verbatim>\<open>Index\<close>), \<open>new_dataset\<close> with \<^verbatim>\<open>from_store\<close>
  never returns a dataset path, whatever the file names and conversions, the empty
  list included.  On a well-formed disk with a datasets directory the exception is the
  \<^verbatim>\<open>ValueError\<close> of \<^verbatim>\<open>read_csv\<close> with \<^verbatim>\<open>index_col="Index"\<close>; the dataset directory and its
  metadata file have been created by then.
\<close>

theorem new_dataset_from_store_unnamed_index:
  assumes init: "init_label_store env w0 = (Inr (), w1)"
    and keys: "''Index'' \<notin> fst ` set (CONVERSIONS env)"
    and still: "map_of (csv_files w) ''data/log.csv'' = map_of (csv_files w1) ''data/log.csv''"
  shows "(\<forall>p. fst (dataset_new_dataset env filenames conversions True w) \<noteq> Inr p)
    \<and> (wf_world w \<and> isdir w ''data/datasets'' \<longrightarrow>
         fst (dataset_new_dataset env filenames conversions True w)
           = Inl (ValueError ''Index Index invalid''))"
proof (intro conjI allI impI)
  have table: "map_of (csv_files w) ''data/log.csv''
     = Some \<lparr>index_label = [], columns = [''File'', ''Class''] @ map fst (CONVERSIONS env),
             rows = []\<rparr>"
    using init_label_store_table [OF init] still by simp
  have raise: "conversions_left env filenames conversions True w
      = Inl (ValueError ''Index Index invalid'')"
    by (rule read_unnamed_index [OF table keys])
  {
    fix p
    show "fst (dataset_new_dataset env filenames conversions True w) \<noteq> Inr p"
    proof
      assume eq: "fst (dataset_new_dataset env filenames conversions True w) = Inr p"
      obtain w' where "dataset_new_dataset env filenames conversions True w = (Inr p, w')"
        using eq by (cases "dataset_new_dataset env filenames conversions True w") simp
      from dataset_new_dataset_Inr [OF this] obtain w3 left where
        w3: "w3 = w\<lparr>dirs := dirs w @ [p, p @ ''/images''],
             json_files := AList.update (p @ ''/process.json'')
               [JObj [(''Conversions'', JList (map JStr conversions)),
                      (''Transforms'', JList []), (''Bundled'', JNull)]] (json_files w)\<rparr>"
        and left: "conversions_left env filenames conversions True w3 = Inr left"
        by blast
      have "csv_files w3 = csv_files w" by (simp add: w3)
      from conversions_left_csv [OF this] left raise show False by simp
    qed
  }
  assume ok: "wf_world w \<and> isdir w ''data/datasets''"
  then obtain ds where ds: "listdir ''data/datasets'' w = Inr ds"
    by (simp add: listdir_def)
  define q where "q = ''data/datasets/'' @ dataset_name (first_free ds 0)"
  let ?w2 = "w\<lparr>dirs := dirs w @ [q, q @ ''/images'']\<rparr>"
  let ?doc = "JObj [(''Conversions'', JList (map JStr conversions)),
                    (''Transforms'', JList []), (''Bundled'', JNull)]"
  let ?w3 = "?w2\<lparr>json_files := AList.update (q @ ''/process.json'') [?doc] (json_files ?w2)\<rparr>"
  from ok have wf: "wf_world w" by simp
  note pre = new_dataset_prefix [OF wf ds q_def]
  have "csv_files ?w3 = csv_files w" by simp
  from conversions_left_csv [OF this] raise
  have left: "conversions_left env filenames conversions True ?w3
      = Inl (ValueError ''Index Index invalid'')" by simp
  have dump: "json_dump_truncate (q @ ''/process.json'') ?doc ?w2 = (Inr (), ?w3)"
    by (simp add: json_dump_truncate_def pre(3))
  show "fst (dataset_new_dataset env filenames conversions True w)
           = Inl (ValueError ''Index Index invalid'')"
    by (simp add: dataset_new_dataset_unfold [OF ds q_def] pre(1,2) dump
        read_unnamed_index [OF _ keys] table)
qed

theorem new_dataset_from_store_unnamed_index_witness:
  "init_label_store example_env (snd (init_data_store empty_disk)) = (Inr (), store_disk)
   \<and> ''Index'' \<notin> fst ` set (CONVERSIONS example_env)
   \<and> wf_world store_disk \<and> isdir store_disk ''data/datasets''
   \<and> fst (dataset_new_dataset example_env [] [''png''] True store_disk)
       = Inl (ValueError ''Index Index invalid'')"
proof -
  have init: "init_label_store example_env (snd (init_data_store empty_disk)) = (Inr (), store_disk)"
    by code_simp
  have keys: "''Index'' \<notin> fst ` set (CONVERSIONS example_env)"
    by (simp add: example_env_def)
  have ok: "wf_world store_disk \<and> isdir store_disk ''data/datasets''"
    by code_simp
  from new_dataset_from_store_unnamed_index [OF init keys refl, of "[]" "[''png'']"] init keys ok
  show ?thesis by simp
qed

section \<open>The conversions left for each file\<close>

lemma sequential_map_all2:
  "sequential_map g xs = Inr ys \<Longrightarrow> list_all2 (\<lambda>x y. g x = Inr y) xs ys"
  by (induction xs arbitrary: ys) (auto split: sum.splits)

lemma unflagged_conversions_Inr:
  "unflagged_conversions r cs = Inr rest \<Longrightarrow>
   rest = filter (\<lambda>c. \<exists>v. row_get r c = Inr v \<and> \<not> truthy v) cs"
  by (induction cs arbitrary: rest) (auto split: sum.splits if_splits)

lemma conversions_left_from_store:
  assumes "conversions_left env filenames conversions True w = Inr left"
  shows "\<exists>store files. read_csv_index_col ''data/log.csv'' ''Index'' w = Inr store
     \<and> get_column store ''File'' = Inr files
     \<and> map fst left = map snd (filter (\<lambda>(f, r). cell_in f filenames) (zip files (rows store)))
     \<and> (\<forall>(r, cs) \<in> set left.
           cs = filter (\<lambda>c. \<exists>v. row_get r c = Inr v \<and> \<not> truthy v) conversions)"
proof -
  from assms obtain store where store: "read_csv_index_col ''data/log.csv'' ''Index'' w = Inr store"
    by (cases "read_csv_index_col ''data/log.csv'' ''Index'' w") (simp_all add: conversions_left_def)
  with assms obtain files where files: "get_column store ''File'' = Inr files"
    by (cases "get_column store ''File''") (simp_all add: conversions_left_def)
  let ?df = "map snd (filter (\<lambda>(f, r). cell_in f filenames) (zip files (rows store)))"
  from assms store files have
    "sequential_map (\<lambda>r. case unflagged_conversions r conversions of
                               Inl e \<Rightarrow> Inl e | Inr cs \<Rightarrow> Inr (r, cs)) ?df = Inr left"
    by (simp add: conversions_left_def)
  from sequential_map_all2 [OF this]
  have all2: "list_all2 (\<lambda>r y. (case unflagged_conversions r conversions of
                               Inl e \<Rightarrow> Inl e | Inr cs \<Rightarrow> Inr (r, cs)) = Inr y) ?df left" .
  then have "list_all2 (\<lambda>r y. fst y = r
      \<and> snd y = filter (\<lambda>c. \<exists>v. row_get r c = Inr v \<and> \<not> truthy v) conversions) ?df left"
    by (rule list_all2_mono) (auto split: sum.splits dest: unflagged_conversions_Inr)
  then have "map fst left = ?df
    \<and> (\<forall>(r, cs) \<in> set left.
           cs = filter (\<lambda>c. \<exists>v. row_get r c = Inr v \<and> \<not> truthy v) conversions)"
    by (induction rule: list_all2_induct) auto
  with store files show ?thesis by blast
qed

lemma get_column_all2:
  "get_column t c = Inr cells \<Longrightarrow> list_all2 (\<lambda>r v. row_get r c = Inr v) (rows t) cells"
  by (auto simp: get_column_def split: if_splits dest: sequential_map_all2)

lemma mkdir_csv: "mkdir p w = (r, w') \<Longrightarrow> csv_files w' = csv_files w"
  by (auto simp: mkdir_def split: if_splits)

lemma json_dump_truncate_csv:
  "json_dump_truncate p d w = (r, w') \<Longrightarrow> csv_files w' = csv_files w"
  by (auto simp: json_dump_truncate_def split: option.splits)

lemma conversions_left_filenames:
  assumes store: "read_csv_index_col ''data/log.csv'' ''Index'' w = Inr store"
    and files: "get_column store ''File'' = Inr files"
    and same: "\<forall>f. CStr f \<in> set files \<longrightarrow> (f \<in> set filenames \<longleftrightarrow> f \<in> set filenames')"
  shows "conversions_left env filenames conversions True w
       = conversions_left env filenames' conversions True w"
proof -
  have "cell_in f filenames = cell_in f filenames'" if "f \<in> set files" for f
  proof (cases f)
    case (CBool b)
    then show ?thesis by (simp add: cell_in_def)
  next
    case (CStr s)
    with that same show ?thesis by (auto simp: cell_in_def)
  qed
  then have "filter (\<lambda>(f, r). cell_in f filenames) (zip files (rows store))
      = filter (\<lambda>(f, r). cell_in f filenames') (zip files (rows store))"
    by (intro filter_cong refl) (auto dest: set_zip_leftD)
  then show ?thesis
    by (simp add: conversions_left_def store files)
qed

lemma new_dataset_filenames:
  assumes store: "read_csv_index_col ''data/log.csv'' ''Index'' w = Inr store"
    and files: "get_column store ''File'' = Inr files"
    and same: "\<forall>f. CStr f \<in> set files \<longrightarrow> (f \<in> set filenames \<longleftrightarrow> f \<in> set filenames')"
  shows "dataset_new_dataset env filenames conversions True w
       = dataset_new_dataset env filenames' conversions True w"
proof (cases "listdir ''data/datasets'' w")
  case (Inl e)
  then show ?thesis by (simp add: dataset_new_dataset_def)
next
  case (Inr ds)
  define q where "q = ''data/datasets/'' @ dataset_name (first_free ds 0)"
  let ?doc = "JObj [(''Conversions'', JList (map JStr conversions)),
                    (''Transforms'', JList []), (''Bundled'', JNull)]"
  note unf = dataset_new_dataset_unfold [OF Inr q_def]
  obtain r1 w1 where m1: "mkdir q w = (r1, w1)" by (cases "mkdir q w")
  show ?thesis
  proof (cases r1)
    case (Inl e)
    with m1 show ?thesis by (simp add: unf)
  next
    case r1: (Inr u1)
    obtain r2 w2 where m2: "mkdir (q @ ''/images'') w1 = (r2, w2)"
      by (cases "mkdir (q @ ''/images'') w1")
    show ?thesis
    proof (cases r2)
      case (Inl e)
      with m1 r1 m2 show ?thesis by (simp add: unf)
    next
      case r2: (Inr u2)
      obtain r3 w3 where j3: "json_dump_truncate (q @ ''/process.json'') ?doc w2 = (r3, w3)"
        by (cases "json_dump_truncate (q @ ''/process.json'') ?doc w2")
      show ?thesis
      proof (cases r3)
        case (Inl e)
        with m1 r1 m2 r2 j3 show ?thesis by (simp add: unf)
      next
        case r3: (Inr u3)
        have csv: "csv_files w3 = csv_files w"
          using mkdir_csv [OF m1] mkdir_csv [OF m2]
            json_dump_truncate_csv [OF j3] by simp
        have "conversions_left env filenames conversions True w3
            = conversions_left env filenames' conversions True w3"
          unfolding conversions_left_csv [OF csv]
          by (rule conversions_left_filenames [OF store files same])
        with m1 r1 m2 r2 j3 r3 show ?thesis by (simp add: unf)
      qed
    qed
  qed
qed

section \<open>\<open>new_dataset\<close> and the pool\<close>

text \<open>
  \<open>new_dataset\<close> hands the nested function \<^verbatim>\<open>_copy_and_apply\<close> to the pool, which cannot
  pickle it.  So the call returns only when there is no task at all: then nothing is copied
  or converted and the dataset's ledger has no rows.
\<close>

lemma sequential_map_Inr_Nil: "sequential_map g xs = Inr [] \<Longrightarrow> xs = []"
  by (drule sequential_map_length) simp

lemma dataset_new_dataset_returns:
  assumes run: "dataset_new_dataset env filenames conversions from_store w = (Inr p, w')"
  shows "conversions_left env filenames conversions from_store w = Inr []
     \<and> image_files w' = image_files w
     \<and> map_of (csv_files w') (p @ ''/log.csv'')
          = Some \<lparr>index_label = ''Index'', columns = [''File'', ''Class''], rows = []\<rparr>"
proof -
  from dataset_new_dataset_Inr [OF run] obtain ds w3 left tasks new_images w4 new_data where
    w3eq: "w3 = w\<lparr>dirs := dirs w @ [p, p @ ''/images''],
             json_files := AList.update (p @ ''/process.json'')
               [JObj [(''Conversions'', JList (map JStr conversions)),
                      (''Transforms'', JList []), (''Bundled'', JNull)]] (json_files w)\<rparr>"
    and left3: "conversions_left env filenames conversions from_store w3 = Inr left"
    and tasks: "sequential_map (\<lambda>(r, cs). case row_get r ''File'' of
                                     Inl e \<Rightarrow> Inl e | Inr f \<Rightarrow> Inr (f, cs)) left = Inr tasks"
    and pm: "process_map (finish_time env) (Nested (copy_and_apply env p)) tasks True w3
               = (Inr new_images, w4)"
    and nd: "sequential_map (\<lambda>(new, (r, _)). case row_get r ''Class'' of
                                   Inl e \<Rightarrow> Inl e
                                 | Inr cls \<Rightarrow> Inr [(''File'', CStr new), (''Class'', cls)])
          (zip new_images left) = Inr new_data"
    and w'eq: "w' = w4\<lparr>csv_files := AList.update (p @ ''/log.csv'')
               \<lparr>index_label = ''Index'', columns = [''File'', ''Class''], rows = new_data\<rparr>
               (csv_files w4)\<rparr>"
    by blast
  from process_map_nested_Inr [OF pm] have none: "tasks = []" "new_images = []" "w4 = w3"
    by simp_all
  from tasks none(1) have left: "left = []" by (auto dest: sequential_map_Inr_Nil)
  from nd none(2) have new_data: "new_data = []" by simp
  have "csv_files w3 = csv_files w" by (simp add: w3eq)
  from conversions_left_csv [OF this] left3 left
  have "conversions_left env filenames conversions from_store w = Inr []" by simp
  then show ?thesis
    by (simp add: w'eq none(3) w3eq new_data update_conv')
qed

lemma new_dataset_raw_returns:
  assumes "dataset_new_dataset env filenames conversions False w = (Inr p, w')"
  shows "filenames = []"
  using dataset_new_dataset_returns [OF assms] by (simp add: conversions_left_def)

text \<open>
  Without \<^verbatim>\<open>from_store\<close> every requested file is a task, so the call returns for the empty
  filename list only.  For any other list it raises \<^verbatim>\<open>AttributeError\<close> after it has made
  the two directories and the metadata file and before it copies or converts anything; the
  dataset's ledger is never written.
\<close>

lemma sequential_map_raw_tasks:
  "sequential_map (\<lambda>(r, cs). case row_get r ''File'' of Inl e \<Rightarrow> Inl e | Inr f \<Rightarrow> Inr (f, cs))
     (map (\<lambda>f. ([(''File'', CStr f), (''Class'', cls)], conversions)) filenames)
   = Inr (map (\<lambda>f. (CStr f, conversions)) filenames)"
  by (induction filenames) (simp_all add: row_get_def)

lemma new_dataset_raw_raises:
  assumes wf: "wf_world w" and ds: "listdir ''data/datasets'' w = Inr ds"
    and q: "q = ''data/datasets/'' @ dataset_name (first_free ds 0)"
    and ne: "filenames \<noteq> []"
  shows "dataset_new_dataset env filenames conversions False w
       = (Inl AttributeError,
          w\<lparr>dirs := dirs w @ [q, q @ ''/images''],
            json_files := AList.update (q @ ''/process.json'')
              [JObj [(''Conversions'', JList (map JStr conversions)),
                     (''Transforms'', JList []), (''Bundled'', JNull)]] (json_files w)\<rparr>)"
proof -
  note pre = new_dataset_prefix [OF wf ds q]
  let ?doc = "JObj [(''Conversions'', JList (map JStr conversions)),
                    (''Transforms'', JList []), (''Bundled'', JNull)]"
  let ?w2 = "w\<lparr>dirs := dirs w @ [q, q @ ''/images'']\<rparr>"
  have dump: "json_dump_truncate (q @ ''/process.json'') ?doc ?w2
      = (Inr (), ?w2\<lparr>json_files := AList.update (q @ ''/process.json'') [?doc] (json_files ?w2)\<rparr>)"
    by (simp add: json_dump_truncate_def pre(3))
  from ne have tasks: "map (\<lambda>f. (CStr f, conversions)) filenames \<noteq> []" by simp
  show ?thesis
    by (simp add: dataset_new_dataset_unfold [OF ds q] pre(1,2) dump conversions_left_def
        sequential_map_raw_tasks process_map_nested [OF tasks])
qed

text \<open>
  Claim C4 does not hold for \<^verbatim>\<open>dataset.new_dataset\<close>.  With \<^verbatim>\<open>from_store\<close> false, the two
  files of the store and the conversions \<open>png\<close> and \<open>gray\<close> requested, the call raises
  \<^verbatim>\<open>AttributeError\<close>: no conversion is applied to any file, the image files are those
  from before the call, and the dataset has no ledger.  The task function is not what
  fails: called directly on the disk the call has left, \<^verbatim>\<open>_copy_and_apply\<close> copies
  \<^verbatim>\<open>a.jpg\<close> into the images directory and applies \<open>png\<close> and then \<open>gray\<close>, each to the path
  the step before returned.
\<close>

theorem new_dataset_applies_no_conversion:
  "fst (dataset_new_dataset example_env [''a.jpg'', ''b.jpg''] [''png'', ''gray''] False store_disk)
     = Inl AttributeError
   \<and> image_files (snd (dataset_new_dataset example_env [''a.jpg'', ''b.jpg''] [''png'', ''gray'']
        False store_disk)) = [(''a.jpg'', 1), (''b.jpg'', 2)]
   \<and> map_of (csv_files (snd (dataset_new_dataset example_env [''a.jpg'', ''b.jpg'']
        [''png'', ''gray''] False store_disk))) ''data/datasets/dataset-0/log.csv'' = None
   \<and> fst (copy_and_apply example_env ''data/datasets/dataset-0''
          (CStr ''a.jpg'', [''png'', ''gray''])
          (snd (dataset_new_dataset example_env [''a.jpg'', ''b.jpg''] [''png'', ''gray'']
             False store_disk)))
       = Inr ''data/datasets/dataset-0/images/a.jpg.png''
   \<and> image_files (snd (copy_and_apply example_env ''data/datasets/dataset-0''
          (CStr ''a.jpg'', [''png'', ''gray''])
          (snd (dataset_new_dataset example_env [''a.jpg'', ''b.jpg''] [''png'', ''gray'']
             False store_disk))))
       = [(''a.jpg'', 1), (''b.jpg'', 2), (''data/datasets/dataset-0/images/a.jpg.png'', 101)]"
  by code_simp

section \<open>\<open>new_dataset\<close> from the store\<close>

text \<open>
  With \<^verbatim>\<open>from_store\<close> a task is made for each ledger row whose file is requested, so the
  call returns only when no requested file is in the ledger.
\<close>

lemma new_dataset_from_store_returns:
  assumes run: "dataset_new_dataset env filenames conversions True w = (Inr p, w')"
    and store: "read_csv_index_col ''data/log.csv'' ''Index'' w = Inr store"
    and files: "get_column store ''File'' = Inr files"
  shows "\<forall>f \<in> set files. \<not> cell_in f filenames"
proof -
  from dataset_new_dataset_returns [OF run]
  have "conversions_left env filenames conversions True w = Inr []" by simp
  from conversions_left_from_store [OF this] store files
  have none: "filter (\<lambda>(f, r). cell_in f filenames) (zip files (rows store)) = []" by simp
  have len: "length (rows store) = length files"
    using get_column_all2 [OF files] by (rule list_all2_lengthD)
  show ?thesis
  proof
    fix f assume "f \<in> set files"
    then obtain k where k: "k < length files" "files ! k = f" by (auto simp: in_set_conv_nth)
    with len have "(f, rows store ! k) \<in> set (zip files (rows store))"
      by (auto simp: in_set_zip)
    with none show "\<not> cell_in f filenames"
      by (auto simp: filter_empty_conv)
  qed
qed

text \<open>
  Claim C10 does not hold for \<^verbatim>\<open>dataset.new_dataset\<close>.  On a store whose ledger has the
  index header \<^verbatim>\<open>Index\<close> and the files \<^verbatim>\<open>a.jpg\<close> and \<^verbatim>\<open>b.jpg\<close>, the request for \<^verbatim>\<open>zzz.jpg\<close>,
  which the ledger does not have, and \<^verbatim>\<open>a.jpg\<close> raises \<^verbatim>\<open>AttributeError\<close> and writes no
  ledger for the dataset, where the claim has no error and one row, for \<^verbatim>\<open>a.jpg\<close>.  The
  request for \<^verbatim>\<open>zzz.jpg\<close> alone does return: the file is left out without an error, the
  dataset's ledger has no rows and no file is copied.
\<close>

theorem new_dataset_from_store_raises_on_known_file:
  "fst (dataset_new_dataset example_env [''zzz.jpg'', ''a.jpg''] [''png'', ''gray''] True
          indexed_store_disk) = Inl AttributeError
   \<and> map_of (csv_files (snd (dataset_new_dataset example_env [''zzz.jpg'', ''a.jpg'']
        [''png'', ''gray''] True indexed_store_disk))) ''data/datasets/dataset-0/log.csv'' = None
   \<and> fst (dataset_new_dataset example_env [''zzz.jpg''] [''png'', ''gray''] True
          indexed_store_disk) = Inr ''data/datasets/dataset-0''
   \<and> map_of (csv_files (snd (dataset_new_dataset example_env [''zzz.jpg'']
        [''png'', ''gray''] True indexed_store_disk))) ''data/datasets/dataset-0/log.csv''
       = Some \<lparr>index_label = ''Index'', columns = [''File'', ''Class''], rows = []\<rparr>
   \<and> image_files (snd (dataset_new_dataset example_env [''zzz.jpg'']
        [''png'', ''gray''] True indexed_store_disk)) = [(''a.jpg'', 1), (''b.jpg'', 2)]"
  by code_simp

end
